theory Spec2Isabelle
  imports Complex_Main
begin

section \<open>Shared data: errors, change records, the workspace and its effect trace\<close>

text \<open>
  Every \<open>throw new Error(...)\<close> of the TypeScript sources is a value of \<open>error\<close>;
  a function that may throw returns \<open>error + 'a\<close> (\<open>Inl\<close> is the exception).
  \<open>message\<close> renders the text the source puts into the \<open>Error\<close> object.
\<close>

datatype error =
    WriteFailed string
  | VersionNotFound nat string
  | FileNotFound string
  | CommandFailed string "nat option"
  | ProviderError string
  | NotImplemented
  | NoWorkspaceForInstall
  | ConfigurationUndefined string

datatype level = Debug | Info | Warn | Error

text \<open>The two values of the TypeScript union \<open>'created' | 'modified'\<close>.\<close>

datatype action = created | modified

record ChangeRecord =
  filePath :: string
  version :: nat
  timestamp :: string
  originalPath :: string
  action :: action

text \<open>
  The lines the orchestrator streams through its \<open>log\<close> callback. The source prints
  them with emoji prefixes; here each line is a constructor carrying the interpolated
  values.
\<close>

datatype progress =
    Generating string
  | Testing string
  | TestPassed string
  | TestFailed string
  | AppliedFix string
  | CouldNotAutoFix string
  | RunningQuality string
  | QualityPassed string
  | QualityIssues string

text \<open>
  The observable effects, in the order the code performs them: calls to the logger
  (\<open>Logger\<close>, the structured meta object left out), lines of the progress callback,
  writes through \<open>vscode.workspace.fs.writeFile\<close> to a backup file (\<open>FsWrite\<close>),
  the mirror of the history to \<open>.vibe/changeHistory.json\<close> (\<open>SaveHistory\<close>), the
  workspace edit that applies new content and whether it was applied (\<open>ApplyEdit\<close>),
  shell commands with the exit code the session reported (\<open>RunCommand\<close>), calls of
  \<open>generateCode\<close> on the active client with the options handed over
  (\<open>Generate\<close>) and directory creation.
\<close>

datatype event =
    Logger level string
  | Progress progress
  | FsWrite string string
  | SaveHistory "ChangeRecord list"
  | ApplyEdit string string bool
  | RunCommand string "nat option"
  | Generate string "(string \<times> real) list"
  | CreateDirectory string

text \<open>
  What the file managers of one workspace share: the files on disk (workspace-relative
  path to content; paths are taken as normalised, and only regular files are stored), the
  documents the editor holds with text that is not saved, the decoded content of the JSON
  history log, and the effect trace. \<open>vscode.workspace.fs\<close> and Node's \<open>fs\<close>
  read and write \<open>files\<close>; a text edit of a \<open>WorkspaceEdit\<close> changes
  \<open>documents\<close>.
\<close>

record disk =
  files :: "string \<rightharpoonup> string"
  documents :: "string \<rightharpoonup> string"
  durable :: "ChangeRecord list"
  trace :: "event list"

section \<open>Rendering numbers and messages\<close>

definition digit_char :: "nat \<Rightarrow> char" where
  "digit_char n = ''0123456789'' ! n"

function number_toString :: "nat \<Rightarrow> string" where
  "number_toString n =
     (if n < 10 then [digit_char n]
      else number_toString (n div 10) @ [digit_char (n mod 10)])"
  by pat_completeness auto
termination
  by (relation "measure id") auto

definition code_toString :: "nat option \<Rightarrow> string" where
  "code_toString c = (case c of None \<Rightarrow> ''undefined'' | Some n \<Rightarrow> number_toString n)"

fun message :: "error \<Rightarrow> string" where
  "message (WriteFailed p) = ''Failed to write file: '' @ p"
| "message (VersionNotFound v p) = ''Version '' @ number_toString v @ '' of '' @ p @ '' not found''"
| "message (FileNotFound p) = ''ENOENT: no such file or directory, open '' @ p"
| "message (CommandFailed c x) = ''Command failed: '' @ c @ '', Exit code: '' @ code_toString x"
| "message (ProviderError m) = m"
| "message NotImplemented = ''Not implemented''"
| "message NoWorkspaceForInstall = ''No workspace folder open for dependency install''"
| "message (ConfigurationUndefined k) = ''Configuration '' @ [CHR 0x27] @ k @ [CHR 0x27] @ '' is undefined''"

section \<open>The versioned file store (src/fileManager.ts)\<close>

text \<open>
  A \<open>FileManager\<close> instance owns the in-memory \<open>changeHistory\<close> array; the disk is
  shared. Each operation takes the instance's history and the disk and returns both.
  The two inputs the environment decides on a write are arguments: \<open>ts\<close> is
  \<open>new Date().toISOString()\<close> and \<open>applied\<close> is the result of
  \<open>vscode.workspace.applyEdit\<close>.
\<close>

type_synonym store = "ChangeRecord list \<times> disk"

definition readFile :: "string \<Rightarrow> disk \<Rightarrow> error + string" where
  "readFile relativePath d =
     (case files d relativePath of
        None \<Rightarrow> Inl (FileNotFound relativePath)
      | Some bytes \<Rightarrow> Inr bytes)"

definition getChangeHistory :: "string option \<Rightarrow> ChangeRecord list \<Rightarrow> ChangeRecord list" where
  "getChangeHistory fp h =
     (case fp of
        Some p \<Rightarrow> (if p \<noteq> [] then filter (\<lambda>r. filePath r = p) h else h)
      | None \<Rightarrow> h)"

text \<open>\<open>Math.max(...existing.map(r => r.version)) + 1\<close>, or 1 for the first write.\<close>

definition nextVersion :: "ChangeRecord list \<Rightarrow> string \<Rightarrow> nat" where
  "nextVersion h relativePath =
     (let existing = filter (\<lambda>r. filePath r = relativePath) h
      in if length existing > 0 then Max (set (map version existing)) + 1 else 1)"

text \<open>\<open>relativePath.replace(/[\/:]/g, '_')\<close> and \<open>timestamp.replace(/[:.]/g, '-')\<close>.\<close>

definition safeName :: "string \<Rightarrow> string" where
  "safeName relativePath =
     map (\<lambda>c. if c = CHR ''/'' \<or> c = CHR '':'' then CHR ''_'' else c) relativePath"

definition safeStamp :: "string \<Rightarrow> string" where
  "safeStamp ts = map (\<lambda>c. if c = CHR '':'' \<or> c = CHR ''.'' then CHR ''-'' else c) ts"

definition historyFileName :: "string \<Rightarrow> nat \<Rightarrow> string \<Rightarrow> string" where
  "historyFileName relativePath v ts =
     safeName relativePath @ ''_v'' @ number_toString v @ ''_'' @ safeStamp ts"

definition historyUri :: "string \<Rightarrow> nat \<Rightarrow> string \<Rightarrow> string" where
  "historyUri relativePath v ts = ''.vibe/history/'' @ historyFileName relativePath v ts"

definition emit :: "event list \<Rightarrow> disk \<Rightarrow> disk" where
  "emit es d = d\<lparr>trace := trace d @ es\<rparr>"

text \<open>
  The backup step of \<open>writeFile\<close>: taken only when the target exists
  (\<open>fileExists\<close>, then \<open>fs.readFile\<close> of the target, which is the case distinction
  on the disk's entry for the path).
\<close>

definition backupExisting :: "string \<Rightarrow> nat \<Rightarrow> string \<Rightarrow> disk \<Rightarrow> action \<times> disk" where
  "backupExisting relativePath v ts d =
     (case files d relativePath of
        None \<Rightarrow> (created, d)
      | Some oldContent \<Rightarrow>
          (modified,
           emit [FsWrite (historyUri relativePath v ts) oldContent,
                 Logger Info (''Backed up '' @ relativePath @ '' version '' @ number_toString v)]
             (d\<lparr>files := (files d)(historyUri relativePath v ts \<mapsto> oldContent)\<rparr>)))"

definition newRecord :: "string \<Rightarrow> nat \<Rightarrow> string \<Rightarrow> action \<Rightarrow> ChangeRecord" where
  "newRecord relativePath v ts a =
     \<lparr>filePath = relativePath, version = v, timestamp = ts,
      originalPath = historyUri relativePath v ts, action = a\<rparr>"

definition saveHistory :: "ChangeRecord list \<Rightarrow> disk \<Rightarrow> disk" where
  "saveHistory h d = emit [SaveHistory h] (d\<lparr>durable := h\<rparr>)"

text \<open>
  The last step of \<open>writeFile\<close>: a \<open>WorkspaceEdit\<close> of \<open>createFile\<close> with
  \<open>overwrite: true\<close> and an \<open>insert\<close> at the start, handed to
  \<open>vscode.workspace.applyEdit\<close>. When the edit is applied, the file operation leaves an
  empty file on disk and the insertion puts the content into the file's document;
  \<open>writeFile\<close> does not save the document. When it is not applied, nothing changes and
  the call throws.
\<close>

definition applyNewContent :: "bool \<Rightarrow> string \<Rightarrow> string \<Rightarrow> disk \<Rightarrow> (error + unit) \<times> disk" where
  "applyNewContent applied relativePath content d =
     (if \<not> applied then
        (Inl (WriteFailed relativePath),
         emit [ApplyEdit relativePath content False,
               Logger Error (''Failed to write file '' @ relativePath)] d)
      else
        (Inr (),
         emit [ApplyEdit relativePath content True,
               Logger Info (''Wrote file '' @ relativePath)]
           (d\<lparr>files := (files d)(relativePath \<mapsto> []),
              documents := (documents d)(relativePath \<mapsto> content)\<rparr>)))"

text \<open>
  The command \<open>workbench.action.files.saveAll\<close>, which \<open>startAutoMode\<close> runs when it
  ends and \<open>autoSave\<close> is configured: every document with unsaved text is written to its
  file.
\<close>

definition saveAll :: "disk \<Rightarrow> disk" where
  "saveAll d = d\<lparr>files := files d ++ documents d, documents := Map.empty\<rparr>"

definition writeFile :: "string \<Rightarrow> bool \<Rightarrow> string \<Rightarrow> string \<Rightarrow> store \<Rightarrow> (error + unit) \<times> store" where
  "writeFile ts applied relativePath content st =
     (let h = fst st;
          v = nextVersion h relativePath;
          (a, d1) = backupExisting relativePath v ts (snd st);
          h' = h @ [newRecord relativePath v ts a];
          d2 = saveHistory h' d1;
          (res, d3) = applyNewContent applied relativePath content d2
      in (res, (h', d3)))"

definition revertToVersion :: "string \<Rightarrow> bool \<Rightarrow> string \<Rightarrow> nat \<Rightarrow> store \<Rightarrow> (error + unit) \<times> store" where
  "revertToVersion ts applied fp v st =
     (case find (\<lambda>r. filePath r = fp \<and> version r = v) (fst st) of
        None \<Rightarrow> (Inl (VersionNotFound v fp), st)
      | Some rec \<Rightarrow>
          (case files (snd st) (originalPath rec) of
             None \<Rightarrow> (Inl (FileNotFound (originalPath rec)), st)
           | Some content \<Rightarrow>
               (case writeFile ts applied fp content st of
                  (Inl e, st') \<Rightarrow> (Inl e, st')
                | (Inr u, (h', d')) \<Rightarrow>
                    (Inr (),
                     (h', emit [Logger Info (''Reverted '' @ fp @ '' to version '' @ number_toString v)] d')))))"

text \<open>A caller's sequence of \<open>writeFile\<close> calls, each with its environment inputs.\<close>

record writeCall =
  w_stamp :: string
  w_applied :: bool
  w_path :: string
  w_content :: string

fun writeAll :: "writeCall list \<Rightarrow> store \<Rightarrow> store" where
  "writeAll [] st = st"
| "writeAll (c # cs) st = writeAll cs (snd (writeFile (w_stamp c) (w_applied c) (w_path c) (w_content c) st))"

definition versionsOf :: "string \<Rightarrow> ChangeRecord list \<Rightarrow> nat list" where
  "versionsOf p h = map version (filter (\<lambda>r. filePath r = p) h)"

text \<open>The versions recorded for one path are \<open>1, 2, ..., n\<close> in the order written.\<close>

definition gapless :: "string \<Rightarrow> ChangeRecord list \<Rightarrow> bool" where
  "gapless p h = (versionsOf p h = [1 ..< Suc (length (versionsOf p h))])"

text \<open>
  The paths an effect writes: a backup written through the file-system API and an edit
  that was applied. \<open>newEvents d d'\<close> are the effects between two states of the disk.
\<close>

fun touches :: "event \<Rightarrow> string list" where
  "touches (FsWrite p c) = [p]"
| "touches (ApplyEdit p c ok) = (if ok then [p] else [])"
| "touches e = []"

definition touched :: "event list \<Rightarrow> string list" where
  "touched es = concat (map touches es)"

definition newEvents :: "disk \<Rightarrow> disk \<Rightarrow> event list" where
  "newEvents d d' = drop (length (trace d)) (trace d')"

definition emptyDisk :: disk where
  "emptyDisk = \<lparr>files = Map.empty, documents = Map.empty, durable = [], trace = []\<rparr>"

section \<open>The environment\<close>

text \<open>
  What the code asks its environment is fixed in advance as a schedule: a function of the
  number of effects performed so far (the length of the trace). \<open>clock\<close> is
  \<open>new Date().toISOString()\<close>, \<open>clockMs\<close> is \<open>Date.now()\<close>, \<open>editApplied\<close> is
  the result of \<open>vscode.workspace.applyEdit\<close>, \<open>exitStatus\<close> is the exit code the
  terminal session reports for a command (\<open>None\<close> is an exit status without a code),
  \<open>workspaceFolder\<close> is the path of the first workspace folder and \<open>telemetry\<close> is
  \<open>settings.isTelemetryEnabled()\<close>.
\<close>

record env =
  clock :: "nat \<Rightarrow> string"
  clockMs :: "nat \<Rightarrow> nat"
  editApplied :: "nat \<Rightarrow> bool"
  exitStatus :: "nat \<Rightarrow> string \<Rightarrow> nat option"
  workspaceFolder :: "string option"
  telemetry :: bool

text \<open>
  The interface \<open>LLMClient\<close>: \<open>generateCode(prompt, opts)\<close>, answered by the provider
  at a point of the schedule; a rejection of the promise is \<open>Inl\<close>.
\<close>

type_synonym LLMClient = "nat \<Rightarrow> string \<Rightarrow> (string \<times> real) list \<Rightarrow> error + string"

section \<open>The command runner (src/terminalManager.ts)\<close>

text \<open>
  \<open>runCommand\<close> sends the command to the terminal and polls \<open>terminal.exitStatus\<close>
  until it is defined; it resolves on code 0 and rejects otherwise. The session is taken
  to report an exit status for every command, so the polling itself is not part of the
  model.
\<close>

definition runCommand :: "env \<Rightarrow> string \<Rightarrow> disk \<Rightarrow> (error + unit) \<times> disk" where
  "runCommand e command d =
     (let code = exitStatus e (length (trace d)) command
      in if code = Some 0 then
           (Inr (), emit [RunCommand command code,
                          Logger Info (''Command executed successfully: '' @ command)] d)
         else
           (Inl (CommandFailed command code),
            emit [RunCommand command code,
                  Logger Error (message (CommandFailed command code))] d))"

section \<open>Regular expressions of the error table\<close>

text \<open>
  The patterns of src/errorRecovery.ts have two shapes: a literal, the group \<open>(.+)\<close>
  and a literal (\<open>DotPlus\<close>), and a literal, the group \<open>(\\w+)\<close> and a literal
  (\<open>BackslashWs\<close>: in a regular expression literal \<open>\\w+\<close> is a backslash
  followed by one or more letters w). None is anchored or global. \<open>regex_exec\<close> returns
  the first group of the leftmost match, the group taken greedily, as \<open>RegExp.exec\<close>
  does; \<open>.\<close> matches any character but a line terminator.
\<close>

datatype regex = DotPlus string string | BackslashWs string string

definition lineTerminator :: "char \<Rightarrow> bool" where
  "lineTerminator c = (c = CHR 0x0A \<or> c = CHR 0x0D)"

fun startsWith :: "string \<Rightarrow> string \<Rightarrow> bool" where
  "startsWith s [] = True"
| "startsWith [] (p # ps) = False"
| "startsWith (c # cs) (p # ps) = (c = p \<and> startsWith cs ps)"

text \<open>Give back characters of the greedy group until the rest matches the literal.\<close>

fun backtrack :: "string \<Rightarrow> string \<Rightarrow> nat \<Rightarrow> string option" where
  "backtrack suf rest 0 = None"
| "backtrack suf rest (Suc k) =
     (if startsWith (drop (Suc k) rest) suf then Some (take (Suc k) rest)
      else backtrack suf rest k)"

fun matchAt :: "regex \<Rightarrow> string \<Rightarrow> string option" where
  "matchAt (DotPlus pre suf) s =
     (if startsWith s pre then
        (let rest = drop (length pre) s
         in backtrack suf rest (length (takeWhile (\<lambda>c. \<not> lineTerminator c) rest)))
      else None)"
| "matchAt (BackslashWs pre suf) s =
     (if startsWith s (pre @ [CHR 0x5C]) then
        (let rest = drop (length pre + 1) s
         in map_option (\<lambda>ws. CHR 0x5C # ws)
              (backtrack suf rest (length (takeWhile (\<lambda>c. c = CHR ''w'') rest))))
      else None)"

fun regex_exec :: "regex \<Rightarrow> string \<Rightarrow> string option" where
  "regex_exec r [] = matchAt r []"
| "regex_exec r (c # cs) =
     (case matchAt r (c # cs) of Some g \<Rightarrow> Some g | None \<Rightarrow> regex_exec r cs)"

section \<open>String.prototype.replace with a string pattern\<close>

text \<open>
  \<open>template.replace('$1', text)\<close> replaces the first occurrence of the pattern and
  expands the replacement text as ECMAScript's GetSubstitution does: \<open>$$\<close> is a dollar
  sign, \<open>$&\<close> the matched text, \<open>$`\<close> the text before the match and \<open>$'\<close> the text
  after it; a string pattern has no groups, so every other \<open>$\<close> stands for itself.
\<close>

fun getSubstitution :: "string \<Rightarrow> string \<Rightarrow> string \<Rightarrow> string \<Rightarrow> string" where
  "getSubstitution matched preceding following [] = []"
| "getSubstitution matched preceding following [c] = [c]"
| "getSubstitution matched preceding following (c # x # rest) =
     (if c = CHR ''$'' \<and> x = CHR ''$'' then CHR ''$'' # getSubstitution matched preceding following rest
      else if c = CHR ''$'' \<and> x = CHR ''&'' then matched @ getSubstitution matched preceding following rest
      else if c = CHR ''$'' \<and> x = CHR 0x60 then preceding @ getSubstitution matched preceding following rest
      else if c = CHR ''$'' \<and> x = CHR 0x27 then following @ getSubstitution matched preceding following rest
      else c # getSubstitution matched preceding following (x # rest))"

fun splitAtFirst :: "string \<Rightarrow> string \<Rightarrow> (string \<times> string) option" where
  "splitAtFirst pat [] = (if pat = [] then Some ([], []) else None)"
| "splitAtFirst pat (c # cs) =
     (if startsWith (c # cs) pat then Some ([], drop (length pat) (c # cs))
      else map_option (\<lambda>(b, a). (c # b, a)) (splitAtFirst pat cs))"

definition string_replace :: "string \<Rightarrow> string \<Rightarrow> string \<Rightarrow> string" where
  "string_replace s pat replacement =
     (case splitAtFirst pat s of
        None \<Rightarrow> s
      | Some (preceding, following) \<Rightarrow>
          preceding @ getSubstitution pat preceding following replacement @ following)"

section \<open>The recovery engine (src/errorRecovery.ts)\<close>

definition errorPatterns :: "(regex \<times> string) list" where
  "errorPatterns =
     [(DotPlus (''ModuleNotFoundError: No module named '' @ [CHR 0x27]) [CHR 0x27],
         ''Install the missing Python module '$1' and adjust imports.''),
      (DotPlus ''SyntaxError: '' [], ''Fix the syntax error: $1''),
      (DotPlus (''Cannot find module '' @ [CHR 0x27]) [CHR 0x27],
         ''Install or require the Node.js module '$1'.''),
      (DotPlus ''TypeError: '' '' is not a function'', ''Ensure $1 is a callable and imported correctly.''),
      (BackslashWs ''ReferenceError: '' '' is not defined'',
         ''Define or import the missing variable/function $1.''),
      (DotPlus ''ImportError: '' [], ''Fix the import error: $1''),
      (DotPlus ''AttributeError: '' [], ''Fix the attribute error: $1''),
      (DotPlus ''IndentationError: '' [], ''Fix the indentation: $1'')]"

definition createDirectory :: "string \<Rightarrow> disk \<Rightarrow> disk" where
  "createDirectory relativePath d =
     emit [CreateDirectory relativePath, Logger Info (''Created directory '' @ relativePath)] d"

text \<open>\<open>path.basename\<close> for paths separated by \<open>/\<close>.\<close>

definition basename :: "string \<Rightarrow> string" where
  "basename p =
     rev (takeWhile (\<lambda>c. c \<noteq> CHR ''/'') (dropWhile (\<lambda>c. c = CHR ''/'') (rev p)))"

definition getContext :: "string \<Rightarrow> disk \<Rightarrow> string \<times> disk" where
  "getContext fp d =
     (case readFile fp d of
        Inr content \<Rightarrow> (content, d)
      | Inl e \<Rightarrow> ([], emit [Logger Warn ''ContextReadFailed''] d))"

text \<open>Step 3 of \<open>analyzeAndFix\<close>: the snapshot, whose failure is caught and logged.\<close>

definition backupOriginal :: "env \<Rightarrow> string \<Rightarrow> string \<Rightarrow> store \<Rightarrow> store" where
  "backupOriginal e fp original st =
     (let n = length (trace (snd st));
          backupName = basename fp @ ''.backup.'' @ number_toString (clockMs e n)
      in case writeFile (clock e n) (editApplied e n) (''.vibe/backups/'' @ backupName) original st of
           (Inr u, (h, d)) \<Rightarrow> (h, emit [Logger Info ''BackupCreated''] d)
         | (Inl err, (h, d)) \<Rightarrow> (h, emit [Logger Warn ''BackupFailed''] d))"

text \<open>The two regular expressions of \<open>checkForDependencyError\<close>.\<close>

definition pythonModulePattern :: regex where
  "pythonModulePattern = DotPlus (''ModuleNotFoundError: No module named '' @ [CHR 0x27]) [CHR 0x27]"

definition nodeModulePattern :: regex where
  "nodeModulePattern = DotPlus (''Cannot find module '' @ [CHR 0x27]) [CHR 0x27]"

definition checkForDependencyError :: "string \<Rightarrow> string option" where
  "checkForDependencyError errorMsg =
     (case regex_exec pythonModulePattern errorMsg of
        Some py \<Rightarrow> Some (''pip install '' @ py)
      | None \<Rightarrow>
          (case regex_exec nodeModulePattern errorMsg of
             Some nd \<Rightarrow> Some (''npm install '' @ nd)
           | None \<Rightarrow> None))"

definition handleDependencyError :: "env \<Rightarrow> string \<Rightarrow> disk \<Rightarrow> (error + unit) \<times> disk" where
  "handleDependencyError e command d =
     (case workspaceFolder e of
        None \<Rightarrow> (Inl NoWorkspaceForInstall, d)
      | Some wsPath \<Rightarrow>
          (case runCommand e command d of
             (Inr u, d') \<Rightarrow>
               (Inr (), emit (Logger Info ''DependencyInstalled'' #
                              (if telemetry e then [Logger Info ''TelemetryEvent''] else [])) d')
           | (Inl err, d') \<Rightarrow> (Inl err, emit [Logger Error ''DependencyInstallFailed''] d')))"

text \<open>
  The loop of \<open>findMatchingPattern\<close> over the table in insertion order. Every group of
  the table matches at least one character, so \<open>m[1] || ''\<close> is \<open>m[1]\<close>.
\<close>

fun firstMatch :: "(regex \<times> string) list \<Rightarrow> string \<Rightarrow> string option" where
  "firstMatch [] errorMsg = None"
| "firstMatch ((regex, template) # rest) errorMsg =
     (case regex_exec regex errorMsg of
        Some m1 \<Rightarrow> Some (string_replace template ''$1'' m1)
      | None \<Rightarrow> firstMatch rest errorMsg)"

definition findMatchingPattern :: "string \<Rightarrow> string option" where
  "findMatchingPattern errorMsg = firstMatch errorPatterns errorMsg"

definition genericPrompt :: "string \<Rightarrow> string \<Rightarrow> string" where
  "genericPrompt errorMsg original =
     ''Fix this error: '' @ errorMsg @ ''\<newline>\<newline>Context:\<newline>'' @ original"

definition targetedPrompt :: "string \<Rightarrow> string \<Rightarrow> string \<Rightarrow> string" where
  "targetedPrompt pattern errorMsg original =
     pattern @ ''\<newline>\<newline>Context:\<newline>'' @ original @ ''\<newline>\<newline>Error:\<newline>'' @ errorMsg"

text \<open>Step 5: \<open>pattern ? ... : ...\<close>; \<open>null\<close> and the empty string are falsy.\<close>

definition buildPrompt :: "string \<Rightarrow> string \<Rightarrow> string" where
  "buildPrompt errorMsg original =
     (case findMatchingPattern errorMsg of
        None \<Rightarrow> genericPrompt errorMsg original
      | Some pattern \<Rightarrow>
          (if pattern \<noteq> [] then targetedPrompt pattern errorMsg original
           else genericPrompt errorMsg original))"

text \<open>Step 4: the install command, run only when a dependency pattern matched.\<close>

definition installMissing :: "env \<Rightarrow> string \<Rightarrow> disk \<Rightarrow> (error + unit) \<times> disk" where
  "installMissing e errorMsg d =
     (case checkForDependencyError errorMsg of
        None \<Rightarrow> (Inr (), d)
      | Some depCmd \<Rightarrow> (if depCmd \<noteq> [] then handleDependencyError e depCmd d else (Inr (), d)))"

text \<open>Steps 5 and 6: build the prompt, ask the client, return its text unchanged.\<close>

definition requestFix :: "env \<Rightarrow> LLMClient \<Rightarrow> string \<Rightarrow> string \<Rightarrow> disk \<Rightarrow> (error + string) \<times> disk" where
  "requestFix e llm errorMsg original d =
     (let request = buildPrompt errorMsg original;
          d1 = emit [Logger Info ''ErrorRecoveryPrompt''] d
      in case llm (length (trace d1)) request [] of
           Inl err \<Rightarrow> (Inl err, emit [Generate request []] d1)
         | Inr fixed \<Rightarrow>
             (Inr fixed,
              emit (Generate request [] # Logger Info ''ErrorRecoveryResult'' #
                    (if telemetry e then [Logger Info ''TelemetryEvent''] else [])) d1))"

text \<open>Steps 1 to 3: the backup folder, the context and the snapshot.\<close>

definition snapshot :: "env \<Rightarrow> string \<Rightarrow> store \<Rightarrow> string \<times> store" where
  "snapshot e fp st =
     (let d1 = createDirectory ''.vibe/backups'' (snd st);
          (original, d2) = getContext fp d1
      in (original, backupOriginal e fp original (fst st, d2)))"

definition analyzeAndFix :: "env \<Rightarrow> LLMClient \<Rightarrow> string \<Rightarrow> string \<Rightarrow> store \<Rightarrow> (error + string) \<times> store" where
  "analyzeAndFix e llm errorMsg fp st =
     (case snapshot e fp st of
        (original, (h3, d3)) \<Rightarrow>
          (case installMissing e errorMsg d3 of
             (Inl err, d4) \<Rightarrow> (Inl err, (h3, d4))
           | (Inr u, d4) \<Rightarrow>
               (case requestFix e llm errorMsg original d4 of
                  (res, d5) \<Rightarrow> (res, (h3, d5)))))"

text \<open>Effects counted in a trace: requests to the client and runs of one command.\<close>

fun isGenerate :: "event \<Rightarrow> bool" where
  "isGenerate (Generate request opts) = True"
| "isGenerate ev = False"

fun isRun :: "event \<Rightarrow> bool" where
  "isRun (RunCommand c x) = True"
| "isRun ev = False"

fun isRunOf :: "string \<Rightarrow> event \<Rightarrow> bool" where
  "isRunOf command (RunCommand c x) = (c = command)"
| "isRunOf command ev = False"

definition quiet :: "event list \<Rightarrow> bool" where
  "quiet es = (filter (\<lambda>ev. isGenerate ev \<or> isRun ev) es = [])"

text \<open>An error text that reports a missing Python module.\<close>

definition missingRequests :: string where
  "missingRequests = ''Traceback (most recent call last):\<newline>ModuleNotFoundError: No module named '' @ [CHR 0x27] @ ''requests'' @ [CHR 0x27]"

text \<open>An environment in which every command exits with 0 and every edit is applied.\<close>

definition calmEnv :: env where
  "calmEnv = \<lparr>clock = (\<lambda>n. ''2026-01-01T10:00:00.000Z''), clockMs = (\<lambda>n. 1767261600000 + n),
     editApplied = (\<lambda>n. True), exitStatus = (\<lambda>n c. Some 0),
     workspaceFolder = Some ''/work'', telemetry = False\<rparr>"

section \<open>The orchestrator (src/autoCoder.ts)\<close>

record Task =
  prompt :: string
  "file" :: string
  testCommand :: string

text \<open>
  The orchestrator's own file manager (\<open>fmHistory\<close>) and the one the recovery engine
  constructs for itself (\<open>recHistory\<close>) keep separate in-memory histories over one
  workspace (\<open>world\<close>).
\<close>

record pipeline =
  isRunning :: bool
  fmHistory :: "ChangeRecord list"
  recHistory :: "ChangeRecord list"
  world :: disk

datatype attempt = Passed pipeline | Threw error pipeline | Fixed pipeline

text \<open>
  One turn of the loop of \<open>testAndFix\<close>: the \<open>try\<close> block runs the test and returns
  when it passes; the \<open>catch\<close> block asks for a fix and rewrites the file, and what it
  throws leaves the method.
\<close>

definition attemptOnce :: "env \<Rightarrow> LLMClient \<Rightarrow> Task \<Rightarrow> pipeline \<Rightarrow> attempt" where
  "attemptOnce e llm t s =
     (case runCommand e (testCommand t) (world s) of
        (Inr u, d1) \<Rightarrow> Passed (s\<lparr>world := emit [Progress (TestPassed (file t))] d1\<rparr>)
      | (Inl err, d1) \<Rightarrow>
          (case analyzeAndFix e llm (message err) (file t)
                  (recHistory s, emit [Progress (TestFailed (message err))] d1) of
             (Inl err2, (rh, d3)) \<Rightarrow> Threw err2 (s\<lparr>recHistory := rh, world := d3\<rparr>)
           | (Inr fixed, (rh, d3)) \<Rightarrow>
               (case writeFile (clock e (length (trace d3))) (editApplied e (length (trace d3)))
                       (file t) fixed (fmHistory s, d3) of
                  (Inl err3, (fh, d4)) \<Rightarrow> Threw err3 (s\<lparr>fmHistory := fh, recHistory := rh, world := d4\<rparr>)
                | (Inr u, (fh, d4)) \<Rightarrow>
                    Fixed (s\<lparr>fmHistory := fh, recHistory := rh,
                             world := emit [Progress (AppliedFix (file t))] d4\<rparr>))))"

function testAndFixFrom :: "env \<Rightarrow> LLMClient \<Rightarrow> Task \<Rightarrow> nat \<Rightarrow> pipeline \<Rightarrow> (error + unit) \<times> pipeline" where
  "testAndFixFrom e llm t attempt s =
     (if attempt < 3 then
        (case attemptOnce e llm t s of
           Passed s' \<Rightarrow> (Inr (), s')
         | Threw err s' \<Rightarrow> (Inl err, s')
         | Fixed s' \<Rightarrow> testAndFixFrom e llm t (attempt + 1) s')
      else (Inr (), s\<lparr>world := emit [Progress (CouldNotAutoFix (file t))] (world s)\<rparr>))"
  by pat_completeness auto
termination
  by (relation "measure (\<lambda>(e, llm, t, attempt, s). 3 - attempt)") auto

definition testAndFix :: "env \<Rightarrow> LLMClient \<Rightarrow> Task \<Rightarrow> pipeline \<Rightarrow> (error + unit) \<times> pipeline" where
  "testAndFix e llm t s = testAndFixFrom e llm t 0 s"

definition runQualityChecks :: "env \<Rightarrow> string \<Rightarrow> string \<Rightarrow> disk \<Rightarrow> disk" where
  "runQualityChecks e fp lang d =
     (let cmd1 = (if lang = ''javascript'' then Some (''npx eslint '' @ fp) else None);
          cmd = (if lang = ''python'' then Some (''flake8 '' @ fp) else cmd1)
      in case cmd of
           None \<Rightarrow> d
         | Some c \<Rightarrow>
             (case runCommand e c d of
                (Inr u, d') \<Rightarrow> emit [Progress (QualityPassed fp)] d'
              | (Inl err, d') \<Rightarrow> emit [Progress (QualityIssues (message err))] d'))"

text \<open>The options the orchestrator hands to \<open>generateCode\<close>.\<close>

definition generationOptions :: "string \<Rightarrow> (string \<times> real) list" where
  "generationOptions performance =
     [(''temperature'', if performance = ''efficient'' then 0.5 else 0.7)]"

text \<open>
  The body of the loop over the tasks in \<open>startAutoMode\<close>, in its three parts:
  generate the code and write it, test and fix, run the quality check.
\<close>

definition generateAndWrite :: "env \<Rightarrow> LLMClient \<Rightarrow> string \<Rightarrow> Task \<Rightarrow> pipeline \<Rightarrow> (error + unit) \<times> pipeline" where
  "generateAndWrite e llm performance t s =
     (let d1 = emit [Progress (Generating (file t))] (world s);
          opts = generationOptions performance;
          d2 = emit [Generate (prompt t) opts] d1
      in case llm (length (trace d1)) (prompt t) opts of
           Inl err \<Rightarrow> (Inl err, s\<lparr>world := d2\<rparr>)
         | Inr code \<Rightarrow>
             (case writeFile (clock e (length (trace d2))) (editApplied e (length (trace d2)))
                     (file t) code (fmHistory s, d2) of
                (Inl err, (fh, d3)) \<Rightarrow> (Inl err, s\<lparr>fmHistory := fh, world := d3\<rparr>)
              | (Inr u, (fh, d3)) \<Rightarrow>
                  (Inr (), s\<lparr>fmHistory := fh, world := emit [Progress (Testing (file t))] d3\<rparr>)))"

definition qualityStep :: "env \<Rightarrow> string \<Rightarrow> Task \<Rightarrow> pipeline \<Rightarrow> pipeline" where
  "qualityStep e language t s =
     s\<lparr>world := runQualityChecks e (file t) language
                    (emit [Progress (RunningQuality (file t))] (world s))\<rparr>"

definition executeTask :: "env \<Rightarrow> LLMClient \<Rightarrow> string \<Rightarrow> string \<Rightarrow> Task \<Rightarrow> pipeline \<Rightarrow> (error + unit) \<times> pipeline" where
  "executeTask e llm performance language t s =
     (case generateAndWrite e llm performance t s of
        (Inl err, s1) \<Rightarrow> (Inl err, s1)
      | (Inr u, s1) \<Rightarrow>
          (case testAndFix e llm t s1 of
             (Inl err, s2) \<Rightarrow> (Inl err, s2)
           | (Inr u, s2) \<Rightarrow> (Inr (), qualityStep e language t s2)))"

fun executeTasks :: "env \<Rightarrow> LLMClient \<Rightarrow> string \<Rightarrow> string \<Rightarrow> Task list \<Rightarrow> pipeline \<Rightarrow> (error + unit) \<times> pipeline" where
  "executeTasks e llm performance language [] s = (Inr (), s)"
| "executeTasks e llm performance language (t # ts) s =
     (if \<not> isRunning s then (Inr (), s)
      else (case executeTask e llm performance language t s of
              (Inl err, s') \<Rightarrow> (Inl err, s')
            | (Inr u, s') \<Rightarrow> executeTasks e llm performance language ts s'))"

definition demoEnv :: env where
  "demoEnv = \<lparr>clock = (\<lambda>n. ''2026-01-01T10:00:00.000Z''), clockMs = (\<lambda>n. 1767261600000 + n),
     editApplied = (\<lambda>n. True), exitStatus = (\<lambda>n c. Some 1),
     workspaceFolder = Some ''/work'', telemetry = False\<rparr>"

definition demoTask :: Task where
  "demoTask = \<lparr>prompt = ''hello'', file = ''src/a.py'', testCommand = ''python src/a.py''\<rparr>"

definition demoClient :: LLMClient where
  "demoClient n request opts = Inr ''print(1)''"

definition freshPipeline :: pipeline where
  "freshPipeline = \<lparr>isRunning = True, fmHistory = [], recHistory = [], world = emptyDisk\<rparr>"

section \<open>Settings (src/settingsManager.ts)\<close>

text \<open>
  The configuration section as a map from key to string value. \<open>getConfiguration\<close>
  returns the stored value or the default and throws when both are missing.
\<close>

type_synonym settings = "string \<rightharpoonup> string"

definition getConfiguration :: "settings \<Rightarrow> string \<Rightarrow> string option \<Rightarrow> error + string" where
  "getConfiguration cfg key defaultValue =
     (case (case cfg key of Some v \<Rightarrow> Some v | None \<Rightarrow> defaultValue) of
        None \<Rightarrow> Inl (ConfigurationUndefined (''vibecoding.'' @ key))
      | Some v \<Rightarrow> Inr v)"

definition bindE :: "error + 'a \<Rightarrow> ('a \<Rightarrow> error + 'b) \<Rightarrow> error + 'b" where
  "bindE m f = (case m of Inl e \<Rightarrow> Inl e | Inr v \<Rightarrow> f v)"

section \<open>The clients and their factory (src/AIClients.ts)\<close>

text \<open>
  A promise is what it settles to. A call that returns a promise completes normally
  whatever that is: only \<open>await\<close> turns a rejection into an exception.
\<close>

datatype 'a promise = Promise "error + 'a"

definition await :: "'a promise \<Rightarrow> error + 'a" where
  "await p = (case p of Promise r \<Rightarrow> r)"

definition unawaited :: "'a promise \<Rightarrow> error + 'a promise" where
  "unawaited p = Inr p"

text \<open>\<open>axios.get(url, {timeout})\<close> against a network where \<open>reachable\<close> holds of the
  URLs that answer.\<close>

definition axios_get :: "(string \<Rightarrow> bool) \<Rightarrow> string \<Rightarrow> unit promise" where
  "axios_get reachable url =
     Promise (if reachable url then Inr () else Inl (ProviderError (''connect ECONNREFUSED '' @ url)))"

record OllamaClient =
  baseURL :: string
  model :: string
  perf :: string

text \<open>
  The loop of the constructor over the candidate URLs:
  \<open>try { axios.get(`${u}/api/tags`, { timeout: 500 }); base = u; break; } catch { logger.warn(...) }\<close>.
  The probe is called and not awaited.
\<close>

fun probeUrls :: "(string \<Rightarrow> bool) \<Rightarrow> string list \<Rightarrow> string \<Rightarrow> string \<times> event list" where
  "probeUrls reachable [] base = (base, [])"
| "probeUrls reachable (u # us) base =
     (case unawaited (axios_get reachable (u @ ''/api/tags'')) of
        Inr p \<Rightarrow> (u, [])
      | Inl err \<Rightarrow>
          (case probeUrls reachable us base of
             (b, warnings) \<Rightarrow> (b, Logger Warn (''Ollama unreachable at '' @ u) # warnings)))"

definition OllamaClient_new :: "(string \<Rightarrow> bool) \<Rightarrow> settings \<Rightarrow> error + OllamaClient \<times> event list" where
  "OllamaClient_new reachable cfg =
     bindE (getConfiguration cfg ''vibecoding.ollamaUrlCustom'' (Some [])) (\<lambda>custom.
     bindE (getConfiguration cfg ''vibecoding.ollamaUrlLocal'' (Some ''http://localhost:11434'')) (\<lambda>local.
     bindE (getConfiguration cfg ''vibecoding.ollamaUrlDocker'' (Some ''http://host.docker.internal:11434'')) (\<lambda>docker.
       (case probeUrls reachable (filter (\<lambda>u. u \<noteq> []) [custom, local, docker]) [] of
          (base, warnings) \<Rightarrow>
            bindE (getConfiguration cfg ''vibecoding.performance'' (Some ''balanced'')) (\<lambda>pf.
              Inr (\<lparr>baseURL = base, model = ''codellama:7b'', perf = pf\<rparr>,
                   warnings @ [Logger Info (''OllamaClient @'' @ base @ '' perf='' @ pf)]))))))"

text \<open>
  The constructor of the class of the same name in src/ollamaClient.ts: local and docker
  candidates, the custom one put in front when set, the first candidate as the initial
  choice, and the same probe loop.
\<close>

fun probeEndpoints :: "(string \<Rightarrow> bool) \<Rightarrow> string list \<Rightarrow> string \<Rightarrow> string \<times> event list" where
  "probeEndpoints reachable [] chosen = (chosen, [])"
| "probeEndpoints reachable (url # urls) chosen =
     (case unawaited (axios_get reachable (url @ ''/api/tags'')) of
        Inr p \<Rightarrow> (url, [])
      | Inl err \<Rightarrow>
          (case probeEndpoints reachable urls chosen of
             (b, warnings) \<Rightarrow> (b, Logger Warn (''Ollama endpoint unreachable: '' @ url) # warnings)))"

definition ollamaClientTs_new :: "(string \<Rightarrow> bool) \<Rightarrow> settings \<Rightarrow> error + OllamaClient \<times> event list" where
  "ollamaClientTs_new reachable cfg =
     bindE (getConfiguration cfg ''ollamaUrlLocal'' (Some ''http://localhost:11434'')) (\<lambda>localUrl.
     bindE (getConfiguration cfg ''ollamaUrlDocker'' (Some ''http://host.docker.internal:11434'')) (\<lambda>dockerUrl.
     bindE (getConfiguration cfg ''ollamaUrlCustom'' (Some [])) (\<lambda>custom.
       (let endpoints = (if custom \<noteq> [] then [custom, localUrl, dockerUrl] else [localUrl, dockerUrl]);
            first = (if custom \<noteq> [] then custom else localUrl)
        in case probeEndpoints reachable endpoints first of
             (chosen, warnings) \<Rightarrow>
               bindE (getConfiguration cfg ''performance'' (Some ''high'')) (\<lambda>pm.
                 Inr (\<lparr>baseURL = chosen, model = ''codellama:7b'', perf = pm\<rparr>,
                      warnings @ [Logger Info (''OllamaClient using endpoint: '' @ chosen),
                                  Logger Info (''OllamaClient performance mode: '' @ pm)]))))))"

text \<open>
  The body \<open>generateCode\<close> posts to \<open>/api/generate\<close>. The class in src/AIClients.ts
  declares \<open>generateCode(prompt)\<close> and builds the options itself; the class in
  src/ollamaClient.ts declares \<open>generateCode(prompt, customConfig = {})\<close> and spreads
  \<open>customConfig\<close> over the same two options.
\<close>

record generateRequest =
  req_model :: string
  req_prompt :: string
  req_stream :: bool
  req_options :: "(string \<times> real) list"

fun assign :: "(string \<times> real) list \<Rightarrow> string \<Rightarrow> real \<Rightarrow> (string \<times> real) list" where
  "assign [] k v = [(k, v)]"
| "assign ((k', v') # kvs) k v = (if k' = k then (k, v) # kvs else (k', v') # assign kvs k v)"

definition spread :: "(string \<times> real) list \<Rightarrow> (string \<times> real) list \<Rightarrow> (string \<times> real) list" where
  "spread obj extra = fold (\<lambda>(k, v) acc. assign acc k v) extra obj"

definition OllamaClient_request :: "OllamaClient \<Rightarrow> string \<Rightarrow> generateRequest" where
  "OllamaClient_request c request =
     \<lparr>req_model = model c, req_prompt = request, req_stream = False,
      req_options = [(''num_ctx'', if perf c = ''efficient'' then 2048 else 4096), (''temperature'', 0.7)]\<rparr>"

definition ollamaClientTs_request :: "OllamaClient \<Rightarrow> string \<Rightarrow> (string \<times> real) list \<Rightarrow> generateRequest" where
  "ollamaClientTs_request c request customConfig =
     \<lparr>req_model = model c, req_prompt = request, req_stream = False,
      req_options = spread [(''num_ctx'', if perf c = ''efficient'' then 2048 else 4096), (''temperature'', 0.7)]
                      customConfig\<rparr>"

text \<open>
  \<open>generateCode\<close> of the client the factory builds, as an \<open>LLMClient\<close>: \<open>post\<close> is
  the provider's answer to a request at a point of the schedule.
\<close>

definition OllamaClient_generateCode :: "(nat \<Rightarrow> generateRequest \<Rightarrow> error + string) \<Rightarrow> OllamaClient \<Rightarrow> LLMClient" where
  "OllamaClient_generateCode post c n request opts = post n (OllamaClient_request c request)"

text \<open>
  The clients of the factory. Each constructor reads its settings with defaults and logs
  one line; the twelve stubs only log. The class \<open>OpenAIClient\<close> is imported from
  src/openAIClient.ts, which is not among the sources: its constructor is the parameter
  \<open>newOpenAI\<close> of the factory and its state the type parameter.
\<close>

datatype 'o client =
    Ollama OllamaClient
  | OpenAI 'o
  | HuggingFace string string string
  | Grok string string
  | DeepSeek string string
  | SurferAI string string
  | YouChat string string
  | Semrush string string
  | PiAI string string
  | MistralAI string string
  | Stub string










text \<open>A network where only the containerised host's Ollama answers.\<close>

definition onlyDockerAnswers :: "string \<Rightarrow> bool" where
  "onlyDockerAnswers url = (url = ''http://host.docker.internal:11434/api/tags'')"





text \<open>
  Two files on disk whose sanitised names coincide (\<open>src/a.py\<close> and \<open>src_a.py\<close>),
  and one write to each at the same clock reading.
\<close>

definition twinDisk :: disk where
  "twinDisk =
     \<lparr>files = [''src/a.py'' \<mapsto> ''x=1'', ''src_a.py'' \<mapsto> ''y=1''],
      documents = Map.empty, durable = [], trace = []\<rparr>"

definition wA :: writeCall where
  "wA = \<lparr>w_stamp = ''2026-01-01T10:00:02.000Z'', w_applied = True, w_path = ''src/a.py'', w_content = ''x=2''\<rparr>"

definition wB :: writeCall where
  "wB = \<lparr>w_stamp = ''2026-01-01T10:00:02.000Z'', w_applied = True, w_path = ''src_a.py'', w_content = ''y=2''\<rparr>"

section \<open>Properties of the file store\<close>

lemma writeFile_history:
  "fst (snd (writeFile ts ok p c (h, d))) =
     h @ [newRecord p (nextVersion h p) ts (fst (backupExisting p (nextVersion h p) ts d))]"
  by (simp add: writeFile_def Let_def split: prod.splits)

lemma versionsOf_append [simp]: "versionsOf p (h @ k) = versionsOf p h @ versionsOf p k"
  by (simp add: versionsOf_def)

lemma nextVersion_versionsOf:
  "nextVersion h p = (if versionsOf p h = [] then 1 else Max (set (versionsOf p h)) + 1)"
  by (simp add: nextVersion_def versionsOf_def Let_def)

lemma Max_upt: "0 < n \<Longrightarrow> Max (set [1 ..< Suc n]) = n"
  by (rule Max_eqI) auto

lemma gapless_nextVersion: "gapless p h \<Longrightarrow> nextVersion h p = Suc (length (versionsOf p h))"
  unfolding gapless_def nextVersion_versionsOf
  by (metis Max_upt One_nat_def Suc_eq_plus1 length_greater_0_conv list.size(3))

lemma versionsOf_writeFile:
  "versionsOf q (fst (snd (writeFile ts ok p c (h, d)))) =
     (if q = p then versionsOf q h @ [nextVersion h p] else versionsOf q h)"
  by (simp add: writeFile_history) (simp add: versionsOf_def newRecord_def)

lemma gapless_writeFile:
  assumes "gapless q h"
  shows "gapless q (fst (snd (writeFile ts ok p c (h, d))))"
proof (cases "q = p")
  case True
  have "[1 ..< Suc (Suc (length (versionsOf p h)))] =
        [1 ..< Suc (length (versionsOf p h))] @ [Suc (length (versionsOf p h))]"
    by simp
  with assms True show ?thesis
    unfolding gapless_def versionsOf_writeFile
    by (simp add: gapless_nextVersion[OF assms[unfolded True]] gapless_def)
next
  case False
  with assms show ?thesis by (simp add: gapless_def versionsOf_writeFile)
qed

lemma writeAll_versions:
  "gapless p (fst st) \<Longrightarrow>
   versionsOf p (fst (writeAll cs st)) =
     [1 ..< Suc (length (versionsOf p (fst st)) + length (filter (\<lambda>c. w_path c = p) cs))]"
proof (induction cs arbitrary: st)
  case Nil
  then show ?case by (simp add: gapless_def)
next
  case (Cons c cs)
  obtain h d where st: "st = (h, d)" by (cases st)
  let ?st' = "snd (writeFile (w_stamp c) (w_applied c) (w_path c) (w_content c) (h, d))"
  have g: "gapless p (fst ?st')" using Cons.prems st gapless_writeFile by simp
  have "versionsOf p (fst (writeAll (c # cs) st)) = versionsOf p (fst (writeAll cs ?st'))"
    by (simp add: st)
  also have "\<dots> = [1 ..< Suc (length (versionsOf p (fst ?st')) + length (filter (\<lambda>c. w_path c = p) cs))]"
    by (rule Cons.IH[OF g])
  finally show ?case by (simp add: versionsOf_writeFile st)
qed

text \<open>
  C2. Starting from a store with no history, after any sequence of \<open>writeFile\<close> calls
  (to any paths, applied or not), the versions recorded for a path \<open>p\<close>, in the order
  of the log, are exactly \<open>1, 2, ..., n\<close>, where \<open>n\<close> is the number of calls that
  named \<open>p\<close>: they start at 1, grow by one per write and have no gap.
\<close>

theorem writeFile_versions_gapless:
  "versionsOf p (fst (writeAll cs ([], d))) =
     [1 ..< Suc (length (filter (\<lambda>c. w_path c = p) cs))]"
  using writeAll_versions[of p "([], d)" cs] by (simp add: gapless_def versionsOf_def)

lemma historyUri_longer: "length p < length (historyUri p v ts)"
  by (simp add: historyUri_def historyFileName_def safeName_def)

lemma historyUri_neq [simp]: "historyUri p v ts \<noteq> p" "p \<noteq> historyUri p v ts"
  using historyUri_longer[of p v ts] by auto

lemma backupExisting_simps:
  "fst (backupExisting p v ts d) = (if files d p = None then created else modified)"
  "durable (snd (backupExisting p v ts d)) = durable d"
  "files (snd (backupExisting p v ts d)) =
     (case files d p of None \<Rightarrow> files d | Some old \<Rightarrow> (files d)(historyUri p v ts \<mapsto> old))"
  "trace (snd (backupExisting p v ts d)) = trace d @
     (case files d p of None \<Rightarrow> []
      | Some old \<Rightarrow> [FsWrite (historyUri p v ts) old,
                     Logger Info (''Backed up '' @ p @ '' version '' @ number_toString v)])"
  by (simp_all add: backupExisting_def emit_def split: option.splits)

lemma writeFile_result:
  "fst (writeFile ts ok p c (h, d)) = (if ok then Inr () else Inl (WriteFailed p))"
  by (simp add: writeFile_def Let_def applyNewContent_def split: prod.splits)

lemma writeFile_durable:
  "durable (snd (snd (writeFile ts ok p c (h, d)))) = fst (snd (writeFile ts ok p c (h, d)))"
  by (simp add: writeFile_def Let_def applyNewContent_def saveHistory_def emit_def split: prod.splits)

lemma writeFile_files:
  "files (snd (snd (writeFile ts ok p c (h, d)))) =
     (let f = files (snd (backupExisting p (nextVersion h p) ts d))
      in if ok then f(p \<mapsto> []) else f)"
  by (simp add: writeFile_def Let_def applyNewContent_def saveHistory_def emit_def split: prod.splits)

lemma backupExisting_documents [simp]:
  "documents (snd (backupExisting p v ts d)) = documents d"
  by (simp add: backupExisting_def emit_def split: option.splits)

lemma writeFile_documents:
  "documents (snd (snd (writeFile ts ok p c (h, d)))) =
     (if ok then (documents d)(p \<mapsto> c) else documents d)"
  by (cases "files d p")
     (simp_all add: writeFile_def Let_def applyNewContent_def saveHistory_def emit_def backupExisting_def)

lemma writeFile_trace:
  "trace (snd (snd (writeFile ts ok p c (h, d)))) =
     trace (snd (backupExisting p (nextVersion h p) ts d)) @
     [SaveHistory (fst (snd (writeFile ts ok p c (h, d)))),
      ApplyEdit p c ok,
      (if ok then Logger Info (''Wrote file '' @ p) else Logger Error (''Failed to write file '' @ p))]"
  by (simp add: writeFile_def Let_def applyNewContent_def saveHistory_def emit_def split: prod.splits)

text \<open>
  C10. In every \<open>writeFile\<close> call the new ChangeRecord is appended to the in-memory
  history and mirrored to the durable log before the edit is attempted: the trace has the
  \<open>SaveHistory\<close> effect immediately before the \<open>ApplyEdit\<close> effect, and neither occurs
  earlier in the call. When the edit is not applied the call throws \<open>WriteFailed\<close>, the
  target keeps its content, and the record and the backup taken for it stay: nothing is
  rolled back.
\<close>

theorem writeFile_records_before_apply:
  fixes ts ok p c h d
  defines "W \<equiv> writeFile ts ok p c (h, d)"
  defines "r \<equiv> newRecord p (nextVersion h p) ts (if files d p = None then created else modified)"
  shows "fst (snd W) = h @ [r]
       \<and> durable (snd (snd W)) = h @ [r]
       \<and> (\<exists>pre post. trace (snd (snd W)) = trace d @ pre @ [SaveHistory (h @ [r]), ApplyEdit p c ok] @ post
              \<and> ApplyEdit p c ok \<notin> set pre \<and> SaveHistory (h @ [r]) \<notin> set pre)
       \<and> (\<not> ok \<longrightarrow> fst W = Inl (WriteFailed p)
              \<and> files (snd (snd W)) p = files d p
              \<and> (\<forall>old. files d p = Some old \<longrightarrow>
                     action r = modified \<and> files (snd (snd W)) (originalPath r) = Some old))"
proof -
  have h': "fst (snd W) = h @ [r]"
    by (simp add: W_def r_def writeFile_history backupExisting_simps)
  have du: "durable (snd (snd W)) = h @ [r]"
    using h' by (simp add: W_def writeFile_durable)
  have tr: "\<exists>pre post. trace (snd (snd W)) = trace d @ pre @ [SaveHistory (h @ [r]), ApplyEdit p c ok] @ post
              \<and> ApplyEdit p c ok \<notin> set pre \<and> SaveHistory (h @ [r]) \<notin> set pre"
    apply (rule exI[of _ "case files d p of None \<Rightarrow> []
      | Some old \<Rightarrow> [FsWrite (historyUri p (nextVersion h p) ts) old,
                     Logger Info (''Backed up '' @ p @ '' version '' @ number_toString (nextVersion h p))]"])
    apply (rule exI[of _ "[if ok then Logger Info (''Wrote file '' @ p) else Logger Error (''Failed to write file '' @ p)]"])
    using h' by (simp add: W_def writeFile_trace backupExisting_simps split: option.splits)
  have fail: "\<not> ok \<longrightarrow> fst W = Inl (WriteFailed p)
              \<and> files (snd (snd W)) p = files d p
              \<and> (\<forall>old. files d p = Some old \<longrightarrow>
                     action r = modified \<and> files (snd (snd W)) (originalPath r) = Some old)"
    by (auto simp: W_def r_def writeFile_result writeFile_files backupExisting_simps newRecord_def Let_def split: option.splits)
  from h' du tr fail show ?thesis by blast
qed


lemma revert_result_cases:
  "fst (revertToVersion ts ok fp v (h, d)) =
     (case find (\<lambda>r. filePath r = fp \<and> version r = v) h of
        None \<Rightarrow> Inl (VersionNotFound v fp)
      | Some rec \<Rightarrow>
          (case files d (originalPath rec) of
             None \<Rightarrow> Inl (FileNotFound (originalPath rec))
           | Some content \<Rightarrow> (if ok then Inr () else Inl (WriteFailed fp))))"
proof -
  have "fst (case writeFile ts ok fp c (h, d) of
                  (Inl e, st') \<Rightarrow> (Inl e, st')
                | (Inr u, (h', d')) \<Rightarrow> (Inr (), (h', emit [Logger Info (''Reverted '' @ fp @ '' to version '' @ number_toString v)] d')))
              = (if ok then Inr () else Inl (WriteFailed fp))" for c
  proof -
    obtain res h' d' where w: "writeFile ts ok fp c (h, d) = (res, (h', d'))"
      by (metis prod.exhaust)
    have "res = (if ok then Inr () else Inl (WriteFailed fp))"
      using writeFile_result[of ts ok fp c h d] w by simp
    then show ?thesis by (simp add: w)
  qed
  then show ?thesis
    by (cases ok) (auto simp: revertToVersion_def split: option.splits)
qed



lemma touched_append [simp]: "touched (xs @ ys) = touched xs @ touched ys"
  by (simp add: touched_def)

lemma writeFile_trace_ext:
  "\<exists>es. trace (snd (snd (writeFile ts ok p c (h, d)))) = trace d @ es"
  by (simp add: writeFile_trace backupExisting_simps)

lemma writeFile_frame:
  assumes "q \<notin> set (touched (newEvents d (snd (snd (writeFile ts ok p c (h, d))))))"
  shows "files (snd (snd (writeFile ts ok p c (h, d)))) q = files d q"
proof (cases "files d p")
  case None
  with assms show ?thesis
    by (cases ok) (simp_all add: newEvents_def writeFile_trace writeFile_files backupExisting_simps touched_def)
next
  case (Some old)
  with assms show ?thesis
    by (cases ok) (simp_all add: newEvents_def writeFile_trace writeFile_files backupExisting_simps touched_def)
qed

lemma writeAll_trace_ext: "\<exists>es. trace (snd (writeAll cs st)) = trace (snd st) @ es"
proof (induction cs arbitrary: st)
  case Nil
  then show ?case by simp
next
  case (Cons c cs)
  obtain h d where st: "st = (h, d)" by (cases st)
  obtain es where 1: "trace (snd (snd (writeFile (w_stamp c) (w_applied c) (w_path c) (w_content c) (h, d)))) = trace d @ es"
    using writeFile_trace_ext by blast
  obtain es' where 2: "trace (snd (writeAll cs (snd (writeFile (w_stamp c) (w_applied c) (w_path c) (w_content c) (h, d))))) =
      trace (snd (snd (writeFile (w_stamp c) (w_applied c) (w_path c) (w_content c) (h, d)))) @ es'"
    using Cons.IH by blast
  show ?case by (simp add: st 1 2)
qed

lemma writeAll_history_ext: "\<exists>k. fst (writeAll cs st) = fst st @ k"
proof (induction cs arbitrary: st)
  case Nil
  then show ?case by simp
next
  case (Cons c cs)
  obtain h d where st: "st = (h, d)" by (cases st)
  obtain k where "fst (writeAll cs (snd (writeFile (w_stamp c) (w_applied c) (w_path c) (w_content c) (h, d)))) =
      fst (snd (writeFile (w_stamp c) (w_applied c) (w_path c) (w_content c) (h, d))) @ k"
    using Cons.IH by blast
  then show ?case by (simp add: st writeFile_history)
qed

lemma writeAll_frame:
  "q \<notin> set (touched (newEvents (snd st) (snd (writeAll cs st)))) \<Longrightarrow>
   files (snd (writeAll cs st)) q = files (snd st) q"
proof (induction cs arbitrary: st)
  case Nil
  then show ?case by simp
next
  case (Cons c cs)
  obtain h d where st: "st = (h, d)" by (cases st)
  let ?st1 = "snd (writeFile (w_stamp c) (w_applied c) (w_path c) (w_content c) (h, d))"
  obtain es where 1: "trace (snd ?st1) = trace d @ es"
    using writeFile_trace_ext by blast
  obtain es' where 2: "trace (snd (writeAll cs ?st1)) = trace (snd ?st1) @ es'"
    using writeAll_trace_ext by blast
  have ne: "newEvents d (snd (writeAll cs ?st1)) = es @ es'" "newEvents d (snd ?st1) = es"
    "newEvents (snd ?st1) (snd (writeAll cs ?st1)) = es'"
    by (simp_all add: newEvents_def 1 2)
  from Cons.prems have q: "q \<notin> set (touched es)" "q \<notin> set (touched es')"
    by (simp_all add: st ne)
  have "files (snd (writeAll cs ?st1)) q = files (snd ?st1) q"
    by (rule Cons.IH) (simp add: ne q)
  also have "\<dots> = files d q"
    using writeFile_frame[of q d "w_stamp c" "w_applied c" "w_path c" "w_content c" h] q ne by simp
  finally show ?case by (simp add: st)
qed

lemma version_less_nextVersion:
  "r \<in> set h \<Longrightarrow> filePath r = p \<Longrightarrow> version r < nextVersion h p"
proof -
  assume a: "r \<in> set h" "filePath r = p"
  then have m: "version r \<in> set (versionsOf p h)" by (auto simp: versionsOf_def)
  then have "version r \<le> Max (set (versionsOf p h))" by simp
  then have "version r < Suc (Max (set (versionsOf p h)))" by (rule le_imp_less_Suc)
  moreover have "versionsOf p h \<noteq> []" using m by auto
  ultimately show ?thesis by (simp add: nextVersion_versionsOf)
qed

lemma find_append_new:
  "\<forall>x\<in>set xs. \<not> P x \<Longrightarrow> P y \<Longrightarrow> find P (xs @ y # ys) = Some y"
  by (induction xs) auto

lemma revert_documents_cases:
  "documents (snd (snd (revertToVersion ts ok fp v (h, d)))) =
     (case find (\<lambda>r. filePath r = fp \<and> version r = v) h of
        None \<Rightarrow> documents d
      | Some rec \<Rightarrow>
          (case files d (originalPath rec) of
             None \<Rightarrow> documents d
           | Some content \<Rightarrow> documents (snd (snd (writeFile ts ok fp content (h, d))))))"
  by (auto simp: revertToVersion_def emit_def split: option.splits prod.splits sum.splits)



text \<open>
  Where the backup of version \<open>N\<close> is still the file that version's write stored, the
  revert puts the pre-image into the document of the target, and a read after the
  documents are saved returns it.
\<close>

lemma revert_with_intact_backup:
  fixes ts ok p new h0 d0 cs ts'
  defines "N \<equiv> nextVersion h0 p"
  defines "st1 \<equiv> snd (writeFile ts ok p new (h0, d0))"
  defines "st2 \<equiv> writeAll cs st1"
  assumes live: "files d0 p = Some c"
      and intact: "historyUri p N ts \<notin> set (touched (newEvents (snd st1) (snd st2)))"
  shows "fst (revertToVersion ts' True p N st2) = Inr ()
       \<and> documents (snd (snd (revertToVersion ts' True p N st2))) p = Some c
       \<and> readFile p (saveAll (snd (snd (revertToVersion ts' True p N st2)))) = Inr c"
proof -
  let ?rN = "newRecord p N ts modified"
  have h1: "fst st1 = h0 @ [?rN]"
    using live by (simp add: st1_def N_def writeFile_history backupExisting_simps)
  have f1: "files (snd st1) (historyUri p N ts) = Some c"
    using live by (simp add: st1_def N_def writeFile_files backupExisting_simps Let_def)
  obtain k where h2: "fst st2 = h0 @ ?rN # k"
    using writeAll_history_ext[of cs st1] h1 by (auto simp: st2_def)
  have f2: "files (snd st2) (historyUri p N ts) = Some c"
    using writeAll_frame[of "historyUri p N ts" st1 cs] intact f1 by (simp add: st2_def)
  have none: "\<forall>x\<in>set h0. \<not> (filePath x = p \<and> version x = N)"
  proof
    fix x assume "x \<in> set h0"
    then have "filePath x = p \<Longrightarrow> version x < N"
      unfolding N_def by (rule version_less_nextVersion)
    then show "\<not> (filePath x = p \<and> version x = N)" by auto
  qed
  have fnd: "find (\<lambda>r. filePath r = p \<and> version r = N) (fst st2) = Some ?rN"
    unfolding h2 by (rule find_append_new[OF none]) (simp add: newRecord_def)
  obtain h2' d2 where st2: "st2 = (h2', d2)" by (cases st2)
  have op: "originalPath ?rN = historyUri p N ts" by (simp add: newRecord_def)
  have r: "fst (revertToVersion ts' True p N (h2', d2)) = Inr ()"
    using fnd f2 by (simp add: revert_result_cases st2 op)
  have dl: "documents (snd (snd (revertToVersion ts' True p N (h2', d2)))) p = Some c"
    using fnd f2 by (simp add: revert_documents_cases st2 op writeFile_documents)
  show ?thesis
    using r dl by (simp add: st2 readFile_def saveAll_def)
qed

text \<open>Unfolding the store's operations on explicit inputs.\<close>

lemmas fs_eval = writeFile_def revertToVersion_def readFile_def
     nextVersion_def backupExisting_def saveHistory_def applyNewContent_def emit_def newRecord_def
     historyUri_def historyFileName_def safeName_def safeStamp_def digit_char_def Let_def emptyDisk_def

text \<open>C10 on an explicit input: the second write to \<open>src/a.py\<close> is not applied.\<close>

theorem writeFile_records_before_apply_witness:
  "fst (writeFile ''2026-01-01T10:00:01.000Z'' False ''src/a.py'' ''x=2''
         ([newRecord ''src/a.py'' 1 ''2026-01-01T10:00:00.000Z'' created],
          \<lparr>files = [''src/a.py'' \<mapsto> ''x=1''], documents = Map.empty, durable = [], trace = []\<rparr>))
     = Inl (WriteFailed ''src/a.py'')
   \<and> map version (fst (snd (writeFile ''2026-01-01T10:00:01.000Z'' False ''src/a.py'' ''x=2''
         ([newRecord ''src/a.py'' 1 ''2026-01-01T10:00:00.000Z'' created],
          \<lparr>files = [''src/a.py'' \<mapsto> ''x=1''], documents = Map.empty, durable = [], trace = []\<rparr>)))) = [1, 2]
   \<and> map version (durable (snd (snd (writeFile ''2026-01-01T10:00:01.000Z'' False ''src/a.py'' ''x=2''
         ([newRecord ''src/a.py'' 1 ''2026-01-01T10:00:00.000Z'' created],
          \<lparr>files = [''src/a.py'' \<mapsto> ''x=1''], documents = Map.empty, durable = [], trace = []\<rparr>))))) = [1, 2]
   \<and> files (snd (snd (writeFile ''2026-01-01T10:00:01.000Z'' False ''src/a.py'' ''x=2''
         ([newRecord ''src/a.py'' 1 ''2026-01-01T10:00:00.000Z'' created],
          \<lparr>files = [''src/a.py'' \<mapsto> ''x=1''], documents = Map.empty, durable = [], trace = []\<rparr>))))
        ''.vibe/history/src_a.py_v2_2026-01-01T10-00-01-000Z'' = Some ''x=1''
   \<and> files (snd (snd (writeFile ''2026-01-01T10:00:01.000Z'' False ''src/a.py'' ''x=2''
         ([newRecord ''src/a.py'' 1 ''2026-01-01T10:00:00.000Z'' created],
          \<lparr>files = [''src/a.py'' \<mapsto> ''x=1''], documents = Map.empty, durable = [], trace = []\<rparr>)))) ''src/a.py'' = Some ''x=1''"
  using writeFile_records_before_apply
    [of "''2026-01-01T10:00:01.000Z''" False "''src/a.py''" "''x=2''"
        "[newRecord ''src/a.py'' 1 ''2026-01-01T10:00:00.000Z'' created]"
        "\<lparr>files = [''src/a.py'' \<mapsto> ''x=1''], documents = Map.empty, durable = [], trace = []\<rparr>"]
  by (simp add: nextVersion_def newRecord_def historyUri_def historyFileName_def safeName_def
      safeStamp_def digit_char_def)




text \<open>
  C3. The claim is that a revert to version \<open>N\<close> followed by a read of the file returns
  the content that was live before version \<open>N\<close> was written. The name of a backup file is
  built from the path with \<open>/\<close> and \<open>:\<close> replaced by \<open>_\<close>, the version and the clock
  reading, so the backups of version 1 of \<open>src/a.py\<close> and of version 1 of \<open>src_a.py\<close>,
  written at the same clock reading, are one file. The second write replaces the pre-image
  \<open>x=1\<close> of the first by \<open>y=1\<close>; the revert of \<open>src/a.py\<close> to version 1 succeeds and
  puts \<open>y=1\<close> into the document of \<open>src/a.py\<close>. The read that follows returns the
  empty file the edit left on disk, and \<open>y=1\<close> once the documents are saved; it never
  returns \<open>x=1\<close>.
\<close>

theorem revert_restores_colliding_backup:
  "readFile ''src/a.py'' twinDisk = Inr ''x=1''
   \<and> getChangeHistory (Some ''src/a.py'') (fst (writeAll [wA, wB] ([], twinDisk)))
       = [\<lparr>filePath = ''src/a.py'', version = 1, timestamp = ''2026-01-01T10:00:02.000Z'',
           originalPath = ''.vibe/history/src_a.py_v1_2026-01-01T10-00-02-000Z'', action = modified\<rparr>]
   \<and> getChangeHistory (Some ''src_a.py'') (fst (writeAll [wA, wB] ([], twinDisk)))
       = [\<lparr>filePath = ''src_a.py'', version = 1, timestamp = ''2026-01-01T10:00:02.000Z'',
           originalPath = ''.vibe/history/src_a.py_v1_2026-01-01T10-00-02-000Z'', action = modified\<rparr>]
   \<and> files (snd (writeAll [wA] ([], twinDisk))) ''.vibe/history/src_a.py_v1_2026-01-01T10-00-02-000Z''
       = Some ''x=1''
   \<and> files (snd (writeAll [wA, wB] ([], twinDisk))) ''.vibe/history/src_a.py_v1_2026-01-01T10-00-02-000Z''
       = Some ''y=1''
   \<and> fst (revertToVersion ''2026-01-01T10:00:03.000Z'' True ''src/a.py'' 1
             (writeAll [wA, wB] ([], twinDisk))) = Inr ()
   \<and> documents (snd (snd (revertToVersion ''2026-01-01T10:00:03.000Z'' True ''src/a.py'' 1
             (writeAll [wA, wB] ([], twinDisk))))) ''src/a.py'' = Some ''y=1''
   \<and> readFile ''src/a.py'' (snd (snd (revertToVersion ''2026-01-01T10:00:03.000Z'' True ''src/a.py'' 1
             (writeAll [wA, wB] ([], twinDisk))))) = Inr []
   \<and> readFile ''src/a.py'' (saveAll (snd (snd (revertToVersion ''2026-01-01T10:00:03.000Z'' True ''src/a.py'' 1
             (writeAll [wA, wB] ([], twinDisk)))))) = Inr ''y=1''"
  by (simp add: fs_eval twinDisk_def wA_def wB_def getChangeHistory_def saveAll_def)

section \<open>Properties of the clients and the factory\<close>

lemma probeUrls_first: "probeUrls reachable (u # us) base = (u, [])"
  by (simp add: unawaited_def)

lemma probeEndpoints_first: "probeEndpoints reachable (u # us) base = (u, [])"
  by (simp add: unawaited_def)

text \<open>
  C6. The claim is that the constructor binds to the first candidate that answers the
  probe. On a network where only the containerised host answers, both constructors bind to
  the local URL, the first candidate, which does not answer: the probe is never awaited,
  so its outcome cannot reach the \<open>catch\<close> clause.
\<close>

theorem ollama_binds_first_candidate_unprobed:
  "await (axios_get onlyDockerAnswers ''http://localhost:11434/api/tags'')
     = Inl (ProviderError ''connect ECONNREFUSED http://localhost:11434/api/tags'')
   \<and> await (axios_get onlyDockerAnswers ''http://host.docker.internal:11434/api/tags'') = Inr ()
   \<and> OllamaClient_new onlyDockerAnswers Map.empty
     = Inr (\<lparr>baseURL = ''http://localhost:11434'', model = ''codellama:7b'', perf = ''balanced''\<rparr>,
            [Logger Info ''OllamaClient @http://localhost:11434 perf=balanced''])
   \<and> ollamaClientTs_new onlyDockerAnswers Map.empty
     = Inr (\<lparr>baseURL = ''http://localhost:11434'', model = ''codellama:7b'', perf = ''high''\<rparr>,
            [Logger Info ''OllamaClient using endpoint: http://localhost:11434'',
             Logger Info ''OllamaClient performance mode: high''])"
  by (simp add: OllamaClient_new_def ollamaClientTs_new_def getConfiguration_def bindE_def
      unawaited_def await_def axios_get_def onlyDockerAnswers_def Let_def)




text \<open>
  C9. The orchestrator hands temperature 0.5 to \<open>generateCode\<close> in the efficient mode
  and 0.7 otherwise. The client the factory builds posts temperature 0.7 whatever it is
  handed; the class of src/ollamaClient.ts posts the temperature it is handed.
\<close>

theorem temperature_dropped_by_client:
  "generationOptions ''efficient'' = [(''temperature'', 0.5)]
   \<and> generationOptions ''balanced'' = [(''temperature'', 0.7)]
   \<and> generationOptions ''high'' = [(''temperature'', 0.7)]
   \<and> OllamaClient_generateCode post c n request (generationOptions ''efficient'')
     = post n \<lparr>req_model = model c, req_prompt = request, req_stream = False,
               req_options = [(''num_ctx'', if perf c = ''efficient'' then 2048 else 4096),
                              (''temperature'', 0.7)]\<rparr>
   \<and> req_options (ollamaClientTs_request c request (generationOptions ''efficient''))
     = [(''num_ctx'', if perf c = ''efficient'' then 2048 else 4096), (''temperature'', 0.5)]"
  by (simp add: generationOptions_def OllamaClient_generateCode_def OllamaClient_request_def
      ollamaClientTs_request_def spread_def)








section \<open>Properties of the recovery engine\<close>

text \<open>
  C8. The claim is that the first group is substituted for the placeholder. For the error
  text \<open>TypeError: $$ is not a function\<close> the fourth pattern is the first to match, its
  group is \<open>$$\<close>, and the prompt names \<open>$\<close>: \<open>String.replace\<close> expands the
  replacement patterns of the group.
\<close>

theorem replacement_patterns_expand_in_group:
  "regex_exec (DotPlus ''TypeError: '' '' is not a function'') ''TypeError: $$ is not a function'' = Some ''$$''
   \<and> findMatchingPattern ''TypeError: $$ is not a function''
     = Some ''Ensure $ is a callable and imported correctly.''
   \<and> buildPrompt ''TypeError: $$ is not a function'' ''x = $$()''
     = ''Ensure $ is a callable and imported correctly.\<newline>\<newline>Context:\<newline>x = $$()\<newline>\<newline>Error:\<newline>TypeError: $$ is not a function''"
  by (simp add: buildPrompt_def findMatchingPattern_def errorPatterns_def string_replace_def
      targetedPrompt_def lineTerminator_def)



lemma quiet_append [simp]: "quiet (xs @ ys) \<longleftrightarrow> quiet xs \<and> quiet ys"
  by (simp add: quiet_def)

lemma quiet_no_generate: "quiet es \<Longrightarrow> filter isGenerate es = []"
  by (induction es) (auto simp: quiet_def split: if_splits)

lemma quiet_no_run: "quiet es \<Longrightarrow> filter (isRunOf c) es = []"
proof (induction es)
  case Nil
  then show ?case by simp
next
  case (Cons ev es)
  then have "\<not> isRun ev" "quiet es" by (auto simp: quiet_def split: if_splits)
  moreover have "\<not> isRun ev \<Longrightarrow> \<not> isRunOf c ev" by (cases ev) auto
  ultimately show ?case using Cons.IH by simp
qed

lemma writeFile_quiet:
  "\<exists>es. trace (snd (snd (writeFile ts ok p c (h, d)))) = trace d @ es \<and> quiet es"
  by (cases "files d p"; cases ok) (simp_all add: writeFile_trace backupExisting_simps quiet_def)

lemma snapshot_quiet:
  "\<exists>es. trace (snd (snd (snapshot e fp st))) = trace (snd st) @ es \<and> quiet es"
proof -
  let ?d1 = "createDirectory ''.vibe/backups'' (snd st)"
  obtain original d2 where g: "getContext fp ?d1 = (original, d2)" by (cases "getContext fp ?d1")
  have t2: "\<exists>es. trace d2 = trace (snd st) @ es \<and> quiet es"
    using g by (auto simp: getContext_def createDirectory_def readFile_def emit_def quiet_def split: option.splits)
  then obtain es2 where es2: "trace d2 = trace (snd st) @ es2" "quiet es2" by blast
  let ?n = "length (trace d2)"
  let ?w = "writeFile (clock e ?n) (editApplied e ?n)
        (''.vibe/backups/'' @ basename fp @ ''.backup.'' @ number_toString (clockMs e ?n)) original (fst st, d2)"
  obtain es3 where es3: "trace (snd (snd ?w)) = trace d2 @ es3" "quiet es3"
    using writeFile_quiet by blast
  obtain res h d where w: "?w = (res, (h, d))" by (metis prod.exhaust)
  have "\<exists>es. trace (snd (backupOriginal e fp original (fst st, d2))) = trace d2 @ es \<and> quiet es"
    using es3 w by (cases res) (auto simp: backupOriginal_def Let_def emit_def quiet_def)
  then obtain es4 where es4: "trace (snd (backupOriginal e fp original (fst st, d2))) = trace d2 @ es4" "quiet es4"
    by blast
  have "snapshot e fp st = (original, backupOriginal e fp original (fst st, d2))"
    by (simp add: snapshot_def Let_def g)
  then show ?thesis using es2 es4 by auto
qed


lemma runCommand_cases:
  "runCommand e c d =
     (if exitStatus e (length (trace d)) c = Some 0
      then (Inr (), emit [RunCommand c (Some 0), Logger Info (''Command executed successfully: '' @ c)] d)
      else (Inl (CommandFailed c (exitStatus e (length (trace d)) c)),
            emit [RunCommand c (exitStatus e (length (trace d)) c),
                  Logger Error (message (CommandFailed c (exitStatus e (length (trace d)) c)))] d))"
  by (simp add: runCommand_def Let_def)

lemma handleDependencyError_cases:
  assumes "workspaceFolder e = Some ws"
  shows "handleDependencyError e c d =
     (if exitStatus e (length (trace d)) c = Some 0
      then (Inr (), emit ([RunCommand c (Some 0), Logger Info (''Command executed successfully: '' @ c),
                           Logger Info ''DependencyInstalled''] @
                          (if telemetry e then [Logger Info ''TelemetryEvent''] else [])) d)
      else (Inl (CommandFailed c (exitStatus e (length (trace d)) c)),
            emit [RunCommand c (exitStatus e (length (trace d)) c),
                  Logger Error (message (CommandFailed c (exitStatus e (length (trace d)) c))),
                  Logger Error ''DependencyInstallFailed''] d))"
  using assms by (simp add: handleDependencyError_def runCommand_cases emit_def)

lemma requestFix_trace:
  "\<exists>post. trace (snd (requestFix e llm errorMsg original d)) = trace d @ post
     \<and> filter isGenerate post = [Generate (buildPrompt errorMsg original) []]
     \<and> filter isRun post = []"
  by (cases "llm (Suc (length (trace d))) (buildPrompt errorMsg original) []")
     (simp_all add: requestFix_def Let_def emit_def)

lemma requestFix_result:
  "fst (requestFix e llm errorMsg original d) =
     llm (Suc (length (trace d))) (buildPrompt errorMsg original) []"
  by (cases "llm (Suc (length (trace d))) (buildPrompt errorMsg original) []")
     (simp_all add: requestFix_def Let_def emit_def)

lemma checkForDependencyError_cases:
  "checkForDependencyError errorMsg =
     (case regex_exec pythonModulePattern errorMsg of
        Some pkg \<Rightarrow> Some (''pip install '' @ pkg)
      | None \<Rightarrow> map_option (\<lambda>pkg. ''npm install '' @ pkg) (regex_exec nodeModulePattern errorMsg))"
  by (simp add: checkForDependencyError_def split: option.splits)

text \<open>
  C7. When the error text matches the Python pattern, or only the Node pattern, with
  group \<open>pkg\<close>, \<open>analyzeAndFix\<close> runs \<open>pip install pkg\<close>, respectively
  \<open>npm install pkg\<close>; the client has not been asked before that command runs; it is asked
  once after the command when the command exits with 0, and not at all when the command
  fails, in which case the failure of the command is thrown.
\<close>

theorem analyzeAndFix_installs_before_patch:
  assumes ws: "workspaceFolder e = Some ws"
      and dep: "regex_exec pythonModulePattern errorMsg = Some pkg \<and> cmd = ''pip install '' @ pkg
              \<or> regex_exec pythonModulePattern errorMsg = None
                \<and> regex_exec nodeModulePattern errorMsg = Some pkg \<and> cmd = ''npm install '' @ pkg"
  shows "\<exists>pre code post.
           trace (snd (snd (analyzeAndFix e llm errorMsg fp st)))
             = trace (snd st) @ pre @ RunCommand cmd code # post
         \<and> filter isGenerate pre = []
         \<and> length (filter isGenerate post) = (if code = Some 0 then 1 else 0)
         \<and> (code \<noteq> Some 0 \<longrightarrow> fst (analyzeAndFix e llm errorMsg fp st) = Inl (CommandFailed cmd code))"
proof -
  obtain original h3 d3 where sn: "snapshot e fp st = (original, (h3, d3))"
    by (metis prod.exhaust)
  obtain pre where pre: "trace d3 = trace (snd st) @ pre" "quiet pre"
    using snapshot_quiet[of e fp st] sn by auto
  have c: "checkForDependencyError errorMsg = Some cmd"
    using dep by (auto simp: checkForDependencyError_cases)
  have ne: "cmd \<noteq> []" using dep by auto
  let ?code = "exitStatus e (length (trace d3)) cmd"
  have im: "installMissing e errorMsg d3 = handleDependencyError e cmd d3"
    using c ne by (simp add: installMissing_def)
  show ?thesis
  proof (cases "?code = Some 0")
    case True
    let ?d4 = "emit ([RunCommand cmd (Some 0), Logger Info (''Command executed successfully: '' @ cmd),
                      Logger Info ''DependencyInstalled''] @
                     (if telemetry e then [Logger Info ''TelemetryEvent''] else [])) d3"
    have h: "handleDependencyError e cmd d3 = (Inr (), ?d4)"
      using True by (simp add: handleDependencyError_cases[OF ws])
    obtain post where post: "trace (snd (requestFix e llm errorMsg original ?d4)) = trace ?d4 @ post"
        "filter isGenerate post = [Generate (buildPrompt errorMsg original) []]"
      using requestFix_trace by blast
    have a: "snd (snd (analyzeAndFix e llm errorMsg fp st)) = snd (requestFix e llm errorMsg original ?d4)"
      by (simp add: analyzeAndFix_def sn im h split: prod.splits)
    let ?post = "[Logger Info (''Command executed successfully: '' @ cmd), Logger Info ''DependencyInstalled''] @
             (if telemetry e then [Logger Info ''TelemetryEvent''] else []) @ post"
    have t: "trace (snd (snd (analyzeAndFix e llm errorMsg fp st)))
        = trace (snd st) @ pre @ RunCommand cmd ?code # ?post"
      unfolding a post using True by (simp add: emit_def pre)
    have g: "length (filter isGenerate ?post) = 1"
      using post(2) by simp
    show ?thesis
      apply (rule exI[of _ pre], rule exI[of _ ?code], rule exI[of _ ?post])
      using t g quiet_no_generate[OF pre(2)] True by simp
  next
    case False
    let ?d4 = "emit [RunCommand cmd ?code, Logger Error (message (CommandFailed cmd ?code)),
                     Logger Error ''DependencyInstallFailed''] d3"
    have h: "handleDependencyError e cmd d3 = (Inl (CommandFailed cmd ?code), ?d4)"
      using False by (simp add: handleDependencyError_cases[OF ws])
    have a: "analyzeAndFix e llm errorMsg fp st = (Inl (CommandFailed cmd ?code), (h3, ?d4))"
      by (simp add: analyzeAndFix_def sn im h)
    let ?post = "[Logger Error (message (CommandFailed cmd ?code)), Logger Error ''DependencyInstallFailed'']"
    have t: "trace (snd (snd (analyzeAndFix e llm errorMsg fp st)))
        = trace (snd st) @ pre @ RunCommand cmd ?code # ?post"
      unfolding a by (simp add: emit_def pre)
    have r: "fst (analyzeAndFix e llm errorMsg fp st) = Inl (CommandFailed cmd ?code)"
      by (simp add: a)
    show ?thesis
      apply (rule exI[of _ pre], rule exI[of _ ?code], rule exI[of _ ?post])
      using t r quiet_no_generate[OF pre(2)] False by simp
  qed
qed


text \<open>C7 on an explicit error text and environment.\<close>

theorem analyzeAndFix_installs_before_patch_witness:
  "workspaceFolder calmEnv = Some ''/work''
   \<and> regex_exec pythonModulePattern missingRequests = Some ''requests''
   \<and> (\<exists>pre code post.
           trace (snd (snd (analyzeAndFix calmEnv (\<lambda>n p opts. Inr ''import requests'') missingRequests
                              ''src/a.py'' ([], emptyDisk))))
             = trace (snd ([] :: ChangeRecord list, emptyDisk)) @ pre @ RunCommand ''pip install requests'' code # post
         \<and> filter isGenerate pre = []
         \<and> length (filter isGenerate post) = (if code = Some 0 then 1 else 0)
         \<and> (code \<noteq> Some 0 \<longrightarrow>
               fst (analyzeAndFix calmEnv (\<lambda>n p opts. Inr ''import requests'') missingRequests
                              ''src/a.py'' ([], emptyDisk))
               = Inl (CommandFailed ''pip install requests'' code)))"
proof -
  have ws: "workspaceFolder calmEnv = Some ''/work''" by (simp add: calmEnv_def)
  have m: "regex_exec pythonModulePattern missingRequests = Some ''requests''"
    by (simp add: pythonModulePattern_def missingRequests_def lineTerminator_def)
  have dep: "regex_exec pythonModulePattern missingRequests = Some ''requests''
               \<and> ''pip install requests'' = ''pip install '' @ ''requests''
           \<or> regex_exec pythonModulePattern missingRequests = None
               \<and> regex_exec nodeModulePattern missingRequests = Some ''requests''
               \<and> ''pip install requests'' = ''npm install '' @ ''requests''"
    using m by simp
  note T = analyzeAndFix_installs_before_patch[OF ws dep, of "\<lambda>n p opts. Inr ''import requests''" "''src/a.py''" "([], emptyDisk)"]
  from ws m T show ?thesis by (intro conjI)
qed


lemma no_run_no_runOf: "filter isRun es = [] \<Longrightarrow> filter (isRunOf c) es = []"
proof (induction es)
  case Nil
  then show ?case by simp
next
  case (Cons ev es)
  then have "\<not> isRun ev" "filter isRun es = []" by (auto split: if_splits)
  moreover have "\<not> isRun ev \<Longrightarrow> \<not> isRunOf c ev" by (cases ev) auto
  ultimately show ?case using Cons.IH by simp
qed

lemma checkForDependencyError_nonempty: "checkForDependencyError msg = Some cmd \<Longrightarrow> cmd \<noteq> []"
  by (auto simp: checkForDependencyError_cases split: option.splits)

lemma analyzeAndFix_succeeds:
  assumes llm_ok: "\<forall>n p opts. \<exists>r. llm n p opts = Inr r"
      and deps: "\<forall>m cmd. checkForDependencyError msg = Some cmd \<longrightarrow> exitStatus e m cmd = Some 0"
      and ws: "workspaceFolder e = Some ws"
      and nt: "\<forall>m. exitStatus e m tc \<noteq> Some 0"
  shows "\<exists>fixed rh d' es. analyzeAndFix e llm msg fp (rh0, d0) = (Inr fixed, (rh, d'))
           \<and> trace d' = trace d0 @ es
           \<and> length (filter isGenerate es) = 1 \<and> filter (isRunOf tc) es = []"
proof -
  obtain original h3 d3 where sn: "snapshot e fp (rh0, d0) = (original, (h3, d3))"
    by (metis prod.exhaust)
  obtain pre where pre: "trace d3 = trace d0 @ pre" "quiet pre"
    using snapshot_quiet[of e fp "(rh0, d0)"] sn by auto
  have "\<exists>d4 mid. installMissing e msg d3 = (Inr (), d4) \<and> trace d4 = trace d3 @ mid
          \<and> filter isGenerate mid = [] \<and> filter (isRunOf tc) mid = []"
  proof (cases "checkForDependencyError msg")
    case None
    then show ?thesis by (simp add: installMissing_def)
  next
    case (Some cmd)
    have ne: "cmd \<noteq> []" using Some by (rule checkForDependencyError_nonempty)
    have ok: "exitStatus e (length (trace d3)) cmd = Some 0" using deps Some by blast
    have "cmd \<noteq> tc" using deps Some nt by metis
    then show ?thesis
      using Some ne ok by (simp add: installMissing_def handleDependencyError_cases[OF ws] emit_def)
  qed
  then obtain d4 mid where im: "installMissing e msg d3 = (Inr (), d4)" "trace d4 = trace d3 @ mid"
      "filter isGenerate mid = []" "filter (isRunOf tc) mid = []"
    by blast
  obtain post where post: "trace (snd (requestFix e llm msg original d4)) = trace d4 @ post"
      "filter isGenerate post = [Generate (buildPrompt msg original) []]" "filter isRun post = []"
    using requestFix_trace by blast
  obtain r where r: "fst (requestFix e llm msg original d4) = Inr r"
    unfolding requestFix_result using llm_ok by blast
  have a: "analyzeAndFix e llm msg fp (rh0, d0) = (Inr r, (h3, snd (requestFix e llm msg original d4)))"
    using r by (cases "requestFix e llm msg original d4") (simp add: analyzeAndFix_def sn im(1))
  have t: "trace (snd (requestFix e llm msg original d4)) = trace d0 @ (pre @ mid @ post)"
    by (simp add: post(1) im(2) pre(1))
  have g: "length (filter isGenerate (pre @ mid @ post)) = 1"
    using quiet_no_generate[OF pre(2)] im(3) post(2) by simp
  have n: "filter (isRunOf tc) (pre @ mid @ post) = []"
    using quiet_no_run[OF pre(2)] im(4) no_run_no_runOf[OF post(3)] by simp
  from a t g n show ?thesis by blast
qed

lemma nextVersion_after_append:
  assumes "versionsOf p h' = versionsOf p h @ [nextVersion h p]"
  shows "nextVersion h' p = Suc (nextVersion h p)"
proof -
  let ?v = "nextVersion h p"
  have lt: "\<forall>x\<in>set (versionsOf p h). x < ?v"
  proof
    fix x assume x: "x \<in> set (versionsOf p h)"
    then have "x \<le> Max (set (versionsOf p h))" by simp
    moreover have "versionsOf p h \<noteq> []" using x by auto
    ultimately show "x < ?v" by (simp add: nextVersion_versionsOf le_imp_less_Suc)
  qed
  have "Max (set (versionsOf p h')) = ?v"
    unfolding assms using lt by (intro Max_eqI) (auto intro: less_imp_le)
  then show ?thesis by (simp add: nextVersion_versionsOf[of h'] assms)
qed


section \<open>Properties of the orchestrator\<close>

declare testAndFixFrom.simps [simp del]

lemma writeFile_applied:
  "\<exists>h' d' es. writeFile ts True p c (h, d) = (Inr (), (h', d'))
     \<and> versionsOf p h' = versionsOf p h @ [nextVersion h p]
     \<and> trace d' = trace d @ es \<and> quiet es"
proof -
  obtain res h' d' where w: "writeFile ts True p c (h, d) = (res, (h', d'))"
    by (metis prod.exhaust)
  have r: "res = Inr ()" using writeFile_result[of ts True p c h d] w by simp
  have v: "versionsOf p h' = versionsOf p h @ [nextVersion h p]"
    using versionsOf_writeFile[of p ts True p c h d] w by simp
  obtain es where "trace d' = trace d @ es" "quiet es"
    using writeFile_quiet[of ts True p c h d] w by auto
  with w r v show ?thesis by blast
qed

lemma attemptOnce_fixes:
  assumes fails: "\<forall>n. exitStatus e n (testCommand t) \<noteq> Some 0"
      and llm_ok: "\<forall>n p opts. \<exists>r. llm n p opts = Inr r"
      and deps: "\<forall>n m cmd.
           checkForDependencyError
             (message (CommandFailed (testCommand t) (exitStatus e n (testCommand t)))) = Some cmd
           \<longrightarrow> exitStatus e m cmd = Some 0"
      and ws: "workspaceFolder e = Some ws"
      and edits: "\<forall>n. editApplied e n"
  shows "\<exists>s' es. attemptOnce e llm t s = Fixed s'
      \<and> isRunning s' = isRunning s
      \<and> versionsOf (file t) (fmHistory s') = versionsOf (file t) (fmHistory s) @ [nextVersion (fmHistory s) (file t)]
      \<and> trace (world s') = trace (world s) @ es
      \<and> length (filter (isRunOf (testCommand t)) es) = 1
      \<and> length (filter isGenerate es) = 1"
proof -
  let ?tc = "testCommand t"
  let ?code = "exitStatus e (length (trace (world s))) ?tc"
  let ?err = "CommandFailed ?tc ?code"
  let ?d1 = "emit [RunCommand ?tc ?code, Logger Error (message ?err)] (world s)"
  let ?d2 = "emit [Progress (TestFailed (message ?err))] ?d1"
  have rc: "runCommand e ?tc (world s) = (Inl ?err, ?d1)"
    using fails by (simp add: runCommand_cases)
  have deps': "\<forall>m cmd. checkForDependencyError (message ?err) = Some cmd \<longrightarrow> exitStatus e m cmd = Some 0"
    using deps by blast
  obtain fixed rh d3 es1 where a: "analyzeAndFix e llm (message ?err) (file t) (recHistory s, ?d2) = (Inr fixed, (rh, d3))"
      "trace d3 = trace ?d2 @ es1" "length (filter isGenerate es1) = 1" "filter (isRunOf ?tc) es1 = []"
    using analyzeAndFix_succeeds[OF llm_ok deps' ws fails, of "file t" "recHistory s" ?d2] by blast
  let ?n = "length (trace d3)"
  have ed: "editApplied e ?n = True" using edits by simp
  obtain fh d4 es2 where w: "writeFile (clock e ?n) True (file t) fixed (fmHistory s, d3) = (Inr (), (fh, d4))"
      "versionsOf (file t) fh = versionsOf (file t) (fmHistory s) @ [nextVersion (fmHistory s) (file t)]"
      "trace d4 = trace d3 @ es2" "quiet es2"
    using writeFile_applied[of "clock e ?n" "file t" fixed "fmHistory s" d3] by blast
  let ?s' = "s\<lparr>fmHistory := fh, recHistory := rh, world := emit [Progress (AppliedFix (file t))] d4\<rparr>"
  let ?es = "[RunCommand ?tc ?code, Logger Error (message ?err), Progress (TestFailed (message ?err))]
             @ es1 @ es2 @ [Progress (AppliedFix (file t))]"
  have 1: "attemptOnce e llm t s = Fixed ?s'"
    by (simp add: attemptOnce_def rc a(1) ed w(1) del: message.simps)
  have 2: "trace (world ?s') = trace (world s) @ ?es"
    by (simp add: emit_def w(3) a(2) del: message.simps)
  have 3: "length (filter (isRunOf ?tc) ?es) = 1"
    using a(4) quiet_no_run[OF w(4)] by simp
  have 4: "length (filter isGenerate ?es) = 1"
    using a(3) quiet_no_generate[OF w(4)] by simp
  show ?thesis
    apply (rule exI[of _ ?s'], rule exI[of _ ?es])
    using 1 2 3 4 w(2) by (simp del: message.simps)
qed


lemma testAndFixFrom_step:
  "attempt < 3 \<Longrightarrow> attemptOnce e llm t s = Fixed s' \<Longrightarrow>
   testAndFixFrom e llm t attempt s = testAndFixFrom e llm t (Suc attempt) s'"
  by (subst testAndFixFrom.simps) simp

lemma testAndFixFrom_stop:
  "\<not> attempt < 3 \<Longrightarrow>
   testAndFixFrom e llm t attempt s =
     (Inr (), s\<lparr>world := emit [Progress (CouldNotAutoFix (file t))] (world s)\<rparr>)"
  by (subst testAndFixFrom.simps) simp

lemma testAndFix_exhausts:
  assumes fails: "\<forall>n. exitStatus e n (testCommand t) \<noteq> Some 0"
      and llm_ok: "\<forall>n p opts. \<exists>r. llm n p opts = Inr r"
      and deps: "\<forall>n m cmd.
           checkForDependencyError
             (message (CommandFailed (testCommand t) (exitStatus e n (testCommand t)))) = Some cmd
           \<longrightarrow> exitStatus e m cmd = Some 0"
      and ws: "workspaceFolder e = Some ws"
      and edits: "\<forall>n. editApplied e n"
  shows "\<exists>s' es. testAndFix e llm t s = (Inr (), s')
      \<and> isRunning s' = isRunning s
      \<and> versionsOf (file t) (fmHistory s') =
          versionsOf (file t) (fmHistory s) @
            [nextVersion (fmHistory s) (file t), nextVersion (fmHistory s) (file t) + 1,
             nextVersion (fmHistory s) (file t) + 2]
      \<and> trace (world s') = trace (world s) @ es @ [Progress (CouldNotAutoFix (file t))]
      \<and> length (filter (isRunOf (testCommand t)) es) = 3
      \<and> length (filter isGenerate es) = 3"
proof -
  let ?f = "file t" and ?tc = "testCommand t"
  let ?v = "nextVersion (fmHistory s) ?f"
  note step = attemptOnce_fixes[OF fails llm_ok deps ws edits]
  obtain s1 es1 where 1: "attemptOnce e llm t s = Fixed s1" "isRunning s1 = isRunning s"
      "versionsOf ?f (fmHistory s1) = versionsOf ?f (fmHistory s) @ [?v]"
      "trace (world s1) = trace (world s) @ es1"
      "length (filter (isRunOf ?tc) es1) = 1" "length (filter isGenerate es1) = 1"
    using step[of s] by blast
  have v1: "nextVersion (fmHistory s1) ?f = Suc ?v"
    using 1(3) by (rule nextVersion_after_append)
  obtain s2 es2 where 2: "attemptOnce e llm t s1 = Fixed s2" "isRunning s2 = isRunning s1"
      "versionsOf ?f (fmHistory s2) = versionsOf ?f (fmHistory s1) @ [nextVersion (fmHistory s1) ?f]"
      "trace (world s2) = trace (world s1) @ es2"
      "length (filter (isRunOf ?tc) es2) = 1" "length (filter isGenerate es2) = 1"
    using step[of s1] by blast
  have v2: "nextVersion (fmHistory s2) ?f = Suc (Suc ?v)"
    using nextVersion_after_append[OF 2(3)] v1 by simp
  obtain s3 es3 where 3: "attemptOnce e llm t s2 = Fixed s3" "isRunning s3 = isRunning s2"
      "versionsOf ?f (fmHistory s3) = versionsOf ?f (fmHistory s2) @ [nextVersion (fmHistory s2) ?f]"
      "trace (world s3) = trace (world s2) @ es3"
      "length (filter (isRunOf ?tc) es3) = 1" "length (filter isGenerate es3) = 1"
    using step[of s2] by blast
  let ?s' = "s3\<lparr>world := emit [Progress (CouldNotAutoFix ?f)] (world s3)\<rparr>"
  have r3: "testAndFixFrom e llm t (Suc (Suc (Suc 0))) s3 = (Inr (), ?s')"
    by (rule testAndFixFrom_stop) simp
  have r2: "testAndFixFrom e llm t (Suc (Suc 0)) s2 = testAndFixFrom e llm t (Suc (Suc (Suc 0))) s3"
    by (rule testAndFixFrom_step[OF _ 3(1)]) simp
  have r1: "testAndFixFrom e llm t (Suc 0) s1 = testAndFixFrom e llm t (Suc (Suc 0)) s2"
    by (rule testAndFixFrom_step[OF _ 2(1)]) simp
  have r0': "testAndFixFrom e llm t 0 s = testAndFixFrom e llm t (Suc 0) s1"
    by (rule testAndFixFrom_step[OF _ 1(1)]) simp
  have r0: "testAndFix e llm t s = (Inr (), ?s')"
    unfolding testAndFix_def r0' r1 r2 r3 ..
  have vs: "versionsOf ?f (fmHistory ?s') = versionsOf ?f (fmHistory s) @ [?v, ?v + 1, ?v + 2]"
    by (simp add: 3(3) 2(3) 1(3) v1 v2)
  have tr: "trace (world ?s') = trace (world s) @ (es1 @ es2 @ es3) @ [Progress (CouldNotAutoFix ?f)]"
    by (simp add: emit_def 3(4) 2(4) 1(4))
  have c1: "length (filter (isRunOf ?tc) (es1 @ es2 @ es3)) = 3"
    using 1(5) 2(5) 3(5) by simp
  have c2: "length (filter isGenerate (es1 @ es2 @ es3)) = 3"
    using 1(6) 2(6) 3(6) by simp
  have run: "isRunning ?s' = isRunning s" using 1(2) 2(2) 3(2) by simp
  show ?thesis
    apply (rule exI[of _ ?s'], rule exI[of _ "es1 @ es2 @ es3"])
    using r0 run vs tr c1 c2 by blast
qed

lemma generateAndWrite_ok:
  assumes llm_ok: "\<forall>n p opts. \<exists>r. llm n p opts = Inr r"
      and edits: "\<forall>n. editApplied e n"
  shows "\<exists>s1. generateAndWrite e llm performance t s = (Inr (), s1)
      \<and> isRunning s1 = isRunning s
      \<and> versionsOf (file t) (fmHistory s1) = versionsOf (file t) (fmHistory s) @ [nextVersion (fmHistory s) (file t)]"
proof -
  let ?d1 = "emit [Progress (Generating (file t))] (world s)"
  let ?opts = "generationOptions performance"
  let ?d2 = "emit [Generate (prompt t) ?opts] ?d1"
  obtain code where c: "llm (length (trace ?d1)) (prompt t) ?opts = Inr code"
    using llm_ok by blast
  let ?n = "length (trace ?d2)"
  have ed: "editApplied e ?n = True" using edits by simp
  obtain fh d3 es where w: "writeFile (clock e ?n) True (file t) code (fmHistory s, ?d2) = (Inr (), (fh, d3))"
      "versionsOf (file t) fh = versionsOf (file t) (fmHistory s) @ [nextVersion (fmHistory s) (file t)]"
    using writeFile_applied[of "clock e ?n" "file t" code "fmHistory s" ?d2] by blast
  have "generateAndWrite e llm performance t s =
          (Inr (), s\<lparr>fmHistory := fh, world := emit [Progress (Testing (file t))] d3\<rparr>)"
    using c ed w(1) by (simp add: generateAndWrite_def Let_def)
  then show ?thesis using w(2) by simp
qed


lemma exhausted_task_continues:
  assumes running: "isRunning s"
      and fails: "\<forall>n. exitStatus e n (testCommand t) \<noteq> Some 0"
      and llm_ok: "\<forall>n p opts. \<exists>r. llm n p opts = Inr r"
      and deps: "\<forall>n m cmd.
           checkForDependencyError
             (message (CommandFailed (testCommand t) (exitStatus e n (testCommand t)))) = Some cmd
           \<longrightarrow> exitStatus e m cmd = Some 0"
      and ws: "workspaceFolder e = Some ws"
      and edits: "\<forall>n. editApplied e n"
  shows "\<exists>s1 s2 es.
        generateAndWrite e llm performance t s = (Inr (), s1)
      \<and> testAndFix e llm t s1 = (Inr (), s2)
      \<and> trace (world s2) = trace (world s1) @ es @ [Progress (CouldNotAutoFix (file t))]
      \<and> length (filter (isRunOf (testCommand t)) es) = 3
      \<and> length (filter isGenerate es) = 3
      \<and> versionsOf (file t) (fmHistory s2) =
          versionsOf (file t) (fmHistory s) @
            [nextVersion (fmHistory s) (file t), nextVersion (fmHistory s) (file t) + 1,
             nextVersion (fmHistory s) (file t) + 2, nextVersion (fmHistory s) (file t) + 3]
      \<and> executeTasks e llm performance language (t # ts) s =
          executeTasks e llm performance language ts (qualityStep e language t s2)
      \<and> isRunning (qualityStep e language t s2)
      \<and> fmHistory (qualityStep e language t s2) = fmHistory s2"
proof -
  let ?f = "file t"
  let ?v = "nextVersion (fmHistory s) ?f"
  obtain s1 where g: "generateAndWrite e llm performance t s = (Inr (), s1)" "isRunning s1 = isRunning s"
      "versionsOf ?f (fmHistory s1) = versionsOf ?f (fmHistory s) @ [?v]"
    using generateAndWrite_ok[OF llm_ok edits, of performance t s] by blast
  have v1: "nextVersion (fmHistory s1) ?f = Suc ?v"
    using g(3) by (rule nextVersion_after_append)
  obtain s2 es where x: "testAndFix e llm t s1 = (Inr (), s2)" "isRunning s2 = isRunning s1"
      "versionsOf ?f (fmHistory s2) =
          versionsOf ?f (fmHistory s1) @
            [nextVersion (fmHistory s1) ?f, nextVersion (fmHistory s1) ?f + 1, nextVersion (fmHistory s1) ?f + 2]"
      "trace (world s2) = trace (world s1) @ es @ [Progress (CouldNotAutoFix ?f)]"
      "length (filter (isRunOf (testCommand t)) es) = 3" "length (filter isGenerate es) = 3"
    using testAndFix_exhausts[OF fails llm_ok deps ws edits, of s1] by blast
  have vs: "versionsOf ?f (fmHistory s2) = versionsOf ?f (fmHistory s) @ [?v, ?v + 1, ?v + 2, ?v + 3]"
    by (simp add: x(3) g(3) v1)
  have et: "executeTask e llm performance language t s = (Inr (), qualityStep e language t s2)"
    by (simp add: executeTask_def g(1) x(1))
  have ex: "executeTasks e llm performance language (t # ts) s =
          executeTasks e llm performance language ts (qualityStep e language t s2)"
    using running by (simp add: et)
  have q: "isRunning (qualityStep e language t s2)" "fmHistory (qualityStep e language t s2) = fmHistory s2"
    using running g(2) x(2) by (simp_all add: qualityStep_def)
  show ?thesis
    apply (rule exI[of _ s1], rule exI[of _ s2], rule exI[of _ es])
    using g(1) x(1) x(4) x(5) x(6) vs ex q by blast
qed

text \<open>
  C1 (amended). Let the orchestrator be running, let the test command of task \<open>t\<close> fail
  whenever it is run, and let each recovery and each write succeed: the client answers,
  an install command triggered by the failure message exits with 0, and every edit is
  applied. Then the code is generated and written, \<open>testAndFix\<close> runs the test exactly
  three times, asks the recovery engine for a fix and rewrites the file after each failure,
  logs the warning and returns normally, and the loop goes on to the remaining tasks with
  the orchestrator still running. The history of the task's file gains exactly four
  records with consecutive versions, one for the generated code and one for each fix:
  versions 1 to 4 when the file had no history.
\<close>

theorem failing_task_exhausts_three_attempts:
  assumes running: "isRunning s"
      and fails: "\<forall>n. exitStatus e n (testCommand t) \<noteq> Some 0"
      and llm_ok: "\<forall>n p opts. \<exists>r. llm n p opts = Inr r"
      and deps: "\<forall>n m cmd.
           checkForDependencyError
             (message (CommandFailed (testCommand t) (exitStatus e n (testCommand t)))) = Some cmd
           \<longrightarrow> exitStatus e m cmd = Some 0"
      and ws: "workspaceFolder e = Some ws"
      and edits: "\<forall>n. editApplied e n"
  shows "\<exists>s1 s2 es.
        generateAndWrite e llm performance t s = (Inr (), s1)
      \<and> testAndFix e llm t s1 = (Inr (), s2)
      \<and> trace (world s2) = trace (world s1) @ es @ [Progress (CouldNotAutoFix (file t))]
      \<and> length (filter (isRunOf (testCommand t)) es) = 3
      \<and> length (filter isGenerate es) = 3
      \<and> versionsOf (file t) (fmHistory s2) =
          versionsOf (file t) (fmHistory s) @
            [nextVersion (fmHistory s) (file t), nextVersion (fmHistory s) (file t) + 1,
             nextVersion (fmHistory s) (file t) + 2, nextVersion (fmHistory s) (file t) + 3]
      \<and> executeTasks e llm performance language (t # ts) s =
          executeTasks e llm performance language ts (qualityStep e language t s2)
      \<and> isRunning (qualityStep e language t s2)
      \<and> fmHistory (qualityStep e language t s2) = fmHistory s2"
  using running fails llm_ok deps ws edits by (rule exhausted_task_continues)

lemma demo_failure_message:
  "checkForDependencyError
     (message (CommandFailed (testCommand demoTask) (exitStatus demoEnv n (testCommand demoTask)))) = None"
  by (simp add: demoTask_def demoEnv_def code_toString_def digit_char_def checkForDependencyError_def
      pythonModulePattern_def nodeModulePattern_def)

text \<open>
  C1 as stated fails on the scenario of the specification: one task for \<open>src/a.py\<close>
  whose test always exits with 1, on a fresh store. The run ends normally and the history
  of \<open>src/a.py\<close> holds four records, versions 1 to 4, not three.
\<close>

theorem always_failing_task_counterexample:
  "fst (executeTasks demoEnv demoClient ''balanced'' ''python'' [demoTask] freshPipeline) = Inr ()
   \<and> map version (getChangeHistory (Some ''src/a.py'')
         (fmHistory (snd (executeTasks demoEnv demoClient ''balanced'' ''python'' [demoTask] freshPipeline))))
       = [1, 2, 3, 4]"
proof -
  have running: "isRunning freshPipeline" by (simp add: freshPipeline_def)
  have fails: "\<forall>n. exitStatus demoEnv n (testCommand demoTask) \<noteq> Some 0" by (simp add: demoEnv_def)
  have llm_ok: "\<forall>n p opts. \<exists>r. demoClient n p opts = Inr r" by (simp add: demoClient_def)
  have deps: "\<forall>n m cmd.
           checkForDependencyError
             (message (CommandFailed (testCommand demoTask) (exitStatus demoEnv n (testCommand demoTask)))) = Some cmd
           \<longrightarrow> exitStatus demoEnv m cmd = Some 0"
    by (simp only: demo_failure_message) simp
  have ws: "workspaceFolder demoEnv = Some ''/work''" by (simp add: demoEnv_def)
  have edits: "\<forall>n. editApplied demoEnv n" by (simp add: demoEnv_def)
  obtain s2 where r: "executeTasks demoEnv demoClient ''balanced'' ''python'' (demoTask # []) freshPipeline =
          executeTasks demoEnv demoClient ''balanced'' ''python'' [] (qualityStep demoEnv ''python'' demoTask s2)"
      "fmHistory (qualityStep demoEnv ''python'' demoTask s2) = fmHistory s2"
      "versionsOf (file demoTask) (fmHistory s2) =
          versionsOf (file demoTask) (fmHistory freshPipeline) @
            [nextVersion (fmHistory freshPipeline) (file demoTask), nextVersion (fmHistory freshPipeline) (file demoTask) + 1,
             nextVersion (fmHistory freshPipeline) (file demoTask) + 2, nextVersion (fmHistory freshPipeline) (file demoTask) + 3]"
    using exhausted_task_continues[OF running fails llm_ok deps ws edits, of "''balanced''" "''python''" "[]"]
    by blast
  have f: "file demoTask = ''src/a.py''" by (simp add: demoTask_def)
  have nv: "nextVersion (fmHistory freshPipeline) ''src/a.py'' = 1"
    by (simp add: freshPipeline_def nextVersion_def)
  have e0: "versionsOf ''src/a.py'' (fmHistory freshPipeline) = []"
    by (simp add: freshPipeline_def versionsOf_def)
  have v: "versionsOf ''src/a.py'' (fmHistory s2) = [1, 2, 3, 4]"
    using r(3) unfolding f nv e0 by simp
  have ex: "executeTasks demoEnv demoClient ''balanced'' ''python'' [demoTask] freshPipeline =
          (Inr (), qualityStep demoEnv ''python'' demoTask s2)"
    unfolding r(1) by simp
  show ?thesis
    unfolding ex using v by (simp add: r(2) getChangeHistory_def versionsOf_def)
qed


text \<open>C1 (amended) on the same scenario.\<close>

theorem failing_task_exhausts_three_attempts_witness:
  "isRunning freshPipeline
   \<and> exitStatus demoEnv 0 (testCommand demoTask) = Some 1
   \<and> (\<exists>s1 s2 es.
        generateAndWrite demoEnv demoClient ''balanced'' demoTask freshPipeline = (Inr (), s1)
      \<and> testAndFix demoEnv demoClient demoTask s1 = (Inr (), s2)
      \<and> trace (world s2) = trace (world s1) @ es @ [Progress (CouldNotAutoFix ''src/a.py'')]
      \<and> length (filter (isRunOf ''python src/a.py'') es) = 3
      \<and> length (filter isGenerate es) = 3
      \<and> versionsOf ''src/a.py'' (fmHistory s2) = [1, 2, 3, 4]
      \<and> executeTasks demoEnv demoClient ''balanced'' ''python'' [demoTask] freshPipeline =
          (Inr (), qualityStep demoEnv ''python'' demoTask s2))"
proof -
  have running: "isRunning freshPipeline" by (simp add: freshPipeline_def)
  have one: "exitStatus demoEnv 0 (testCommand demoTask) = Some 1" by (simp add: demoEnv_def)
  have fails: "\<forall>n. exitStatus demoEnv n (testCommand demoTask) \<noteq> Some 0" by (simp add: demoEnv_def)
  have llm_ok: "\<forall>n p opts. \<exists>r. demoClient n p opts = Inr r" by (simp add: demoClient_def)
  have deps: "\<forall>n m cmd.
           checkForDependencyError
             (message (CommandFailed (testCommand demoTask) (exitStatus demoEnv n (testCommand demoTask)))) = Some cmd
           \<longrightarrow> exitStatus demoEnv m cmd = Some 0"
    by (simp only: demo_failure_message) simp
  have ws: "workspaceFolder demoEnv = Some ''/work''" by (simp add: demoEnv_def)
  have edits: "\<forall>n. editApplied demoEnv n" by (simp add: demoEnv_def)
  have f: "file demoTask = ''src/a.py''" "testCommand demoTask = ''python src/a.py''"
    by (simp_all add: demoTask_def)
  have nv: "nextVersion (fmHistory freshPipeline) ''src/a.py'' = 1"
    by (simp add: freshPipeline_def nextVersion_def)
  have e0: "versionsOf ''src/a.py'' (fmHistory freshPipeline) = []"
    by (simp add: freshPipeline_def versionsOf_def)
  note T = failing_task_exhausts_three_attempts[OF running fails llm_ok deps ws edits,
      of "''balanced''" "''python''" "[]", unfolded f nv e0]
  have "\<exists>s1 s2 es.
        generateAndWrite demoEnv demoClient ''balanced'' demoTask freshPipeline = (Inr (), s1)
      \<and> testAndFix demoEnv demoClient demoTask s1 = (Inr (), s2)
      \<and> trace (world s2) = trace (world s1) @ es @ [Progress (CouldNotAutoFix ''src/a.py'')]
      \<and> length (filter (isRunOf ''python src/a.py'') es) = 3
      \<and> length (filter isGenerate es) = 3
      \<and> versionsOf ''src/a.py'' (fmHistory s2) = [1, 2, 3, 4]
      \<and> executeTasks demoEnv demoClient ''balanced'' ''python'' [demoTask] freshPipeline =
          (Inr (), qualityStep demoEnv ''python'' demoTask s2)"
    using T by (elim exE conjE) (intro exI conjI, simp_all)
  with running one show ?thesis by (intro conjI)
qed


end
